theory Spec2Isabelle
  imports Main "HOL-Library.Sublist"
begin

section \<open>Data model of index.tsx\<close>

text \<open>
  A model of the chat page of \<open>index.tsx\<close>: the profiles and sessions it keeps in
  \<open>localStorage\<close>, the login marker it keeps in \<open>sessionStorage\<close>, the conversation it
  holds in the variables of \<open>main\<close>, and the handlers that change them. Every handler is
  a function from the state before the event to the state after it; the submit handler
  of the chat form, which is asynchronous, is one such function for each of its steps.
  The elements of the page other than the transcript, the theme and the speech input
  are left out; the page is taken to hold all the elements that \<open>main\<close> looks up.
\<close>

text \<open>
  A JavaScript string is a sequence of UTF-16 code units. The model keeps a string as
  the list of its code units, so that \<open>substring(0, 40)\<close> is \<open>take 40\<close> and an
  emoji avatar is the two code units of its surrogate pair. \<open>str\<close> turns an ASCII
  literal into such a string.
\<close>

type_synonym jsstring = "nat list"

definition str :: "string \<Rightarrow> jsstring" where
  "str cs = map of_char cs"

datatype role = USER | MODEL

text \<open>
  \<open>interface Message\<close>. \<open>parts\<close> holds the \<open>text\<close> of each part object. \<open>meta\<close> is
  optional and declared with the fields \<open>avatar\<close> and \<open>username\<close> (kept in that order),
  the two that the program reads. The submit handler fills it with \<open>{ ...userProfile }\<close>,
  a shallow copy of the acting profile, so the object it builds also holds the
  \<open>password\<close> and the very array \<open>chatHistory\<close> of the profile object. Whether that
  array leads back to the conversation is kept in the state (\<open>historyShared\<close> and
  \<open>metaCycle\<close> below), not in the message.
\<close>

record Message =
  role :: role
  parts :: "jsstring list"
  meta :: "(jsstring \<times> jsstring) option"

text \<open>\<open>interface ChatSession\<close>; the field \<open>id\<close> is named \<open>session_id\<close> here.\<close>

record ChatSession =
  session_id :: int
  startTime :: jsstring
  title :: jsstring
  history :: "Message list"

record UserProfile =
  username :: jsstring
  avatar :: jsstring
  password :: "jsstring option"
  chatHistory :: "ChatSession list"

datatype error = TypeError

text \<open>
  The result of an event handler or of a function with effects: it ran to its end
  (\<open>Done\<close>), or it threw, and then the second argument is what it had built or
  written up to the throw (\<open>Threw\<close>).
\<close>

datatype 'a outcome = Done 'a | Threw error 'a

text \<open>
  One \<open>p\<close> element of the transcript \<open>messagesEl\<close>: the avatar and the (escaped) user
  name of its \<open>strong\<close> header, whether the typing indicator is still in it, and the
  HTML strings that the program wrote after the header, in the order of the writes:
  the text that \<open>renderMessage\<close> puts into its template, or one string for each
  \<open>innerHTML +=\<close> on the response container. What the element shows is what the HTML
  parser builds from them (every \<open>+=\<close> serialises the content and parses it again with
  the new string, so a tag that one chunk leaves open does not wait for the next
  chunk). The model keeps the strings as they were written and does not parse them.
\<close>

record pElement =
  p_avatar :: jsstring
  p_username :: jsstring
  p_typing :: bool
  p_html :: "jsstring list"

text \<open>
  A request to the model that is under way: the variables \<open>firstChunk\<close> and
  \<open>responseText\<close> of the submit handler that awaits it, and where its response
  container is: the index of its \<open>p\<close> element in the transcript, or \<open>None\<close> once the
  transcript has been emptied (the handler then writes to an element that is no longer
  shown).
\<close>

record request =
  firstChunk :: bool
  responseText :: jsstring
  container :: "nat option"

text \<open>
  The mutable state of \<open>main\<close>: the two storage entries the program uses
  (\<open>localStorage[USERS_KEY]\<close>, \<open>None\<close> when the key is absent, and
  \<open>sessionStorage[CURRENT_USER_SESSION_KEY]\<close>), the closure variables \<open>currentUser\<close>,
  \<open>currentMessages\<close> and \<open>currentLoadedSessionId\<close>, the history the \<open>chat\<close> handle was
  created with, the transcript element, and whether the two form error elements are
  shown. The stored user list is kept as the typed value that \<open>JSON.parse\<close> returns
  for what \<open>JSON.stringify\<close> wrote. \<open>pending\<close> holds the requests whose submit handler
  is suspended at an \<open>await\<close>, oldest first.

  Arrays are shared by reference in one place that changes what the program does, and
  two fields keep it. \<open>historyShared\<close>: the array \<open>currentMessages\<close> is the
  array \<open>currentUser.chatHistory[0].history\<close> of the object \<open>currentUser\<close>;
  \<open>checkCurrentUserSession\<close> binds it so, and it ends when either variable is assigned
  again. \<open>metaCycle\<close>: the array \<open>currentMessages\<close> holds a message whose
  \<open>meta.chatHistory[0].history\<close> is that same array, so the conversation is a cyclic
  structure; the submit handler makes it so when it pushes a copy of the current user
  onto the shared array, and it ends when \<open>currentMessages\<close> is assigned another array.
  Every other array that becomes the conversation is a literal or comes from a
  \<open>JSON.parse\<close> of its own, so that no profile object leads to it, and a message that
  was parsed holds a \<open>meta\<close> of its own. While \<open>historyShared\<close> holds, the object \<open>currentUser\<close> sees the messages
  pushed to the conversation in its first session; the program reads only its
  \<open>username\<close> and \<open>avatar\<close>, and \<open>currentUser\<close> keeps the profile as it was parsed.
\<close>

record state =
  storedUsers :: "UserProfile list option"
  sessionUser :: "jsstring option"
  currentUser :: "UserProfile option"
  currentMessages :: "Message list"
  currentLoadedSessionId :: "int option"
  chat :: "(role \<times> jsstring list) list"
  messagesEl :: "pElement list"
  userLoginError :: bool
  signupError :: bool
  historyShared :: bool
  metaCycle :: bool
  pending :: "request list"

text \<open>The two clock reads of \<open>saveChatSession\<close>: \<open>Date.now()\<close> and \<open>new Date().toISOString()\<close>.\<close>

record clock =
  Date_now :: int
  toISOString :: jsstring

text \<open>
  The two string functions of the platform that the history filter calls:
  \<open>String.prototype.toLowerCase\<close>, and \<open>new Date(startTime).toLocaleString()\<close> as a
  function of the stored start time (it depends on the locale and the time zone).
\<close>

record platform =
  toLowerCase :: "jsstring \<Rightarrow> jsstring"
  toLocaleString :: "jsstring \<Rightarrow> jsstring"

section \<open>Constants\<close>

definition DEFAULT_AVATAR :: jsstring where
  "DEFAULT_AVATAR = [0xD83D, 0xDC64]"

definition GUEST_PROFILE :: UserProfile where
  "GUEST_PROFILE =
     \<lparr>username = str ''You'', avatar = DEFAULT_AVATAR, password = None, chatHistory = []\<rparr>"

text \<open>\<open>MODEL_PROFILE\<close>, as the pair (avatar, username).\<close>

definition MODEL_PROFILE :: "jsstring \<times> jsstring" where
  "MODEL_PROFILE = ([0xD83E, 0xDD16], str ''Model'')"

section \<open>Strings and arrays of the platform\<close>

text \<open>The code units that \<open>trim\<close> strips: ECMAScript's WhiteSpace and LineTerminator.\<close>

definition isWhiteSpace :: "nat \<Rightarrow> bool" where
  "isWhiteSpace c \<longleftrightarrow>
     c = 0x9 \<or> c = 0xA \<or> c = 0xB \<or> c = 0xC \<or> c = 0xD \<or> c = 0x20 \<or> c = 0xA0 \<or>
     c = 0x1680 \<or> (0x2000 \<le> c \<and> c \<le> 0x200A) \<or> c = 0x2028 \<or> c = 0x2029 \<or>
     c = 0x202F \<or> c = 0x205F \<or> c = 0x3000 \<or> c = 0xFEFF"

definition trim :: "jsstring \<Rightarrow> jsstring" where
  "trim s = rev (dropWhile isWhiteSpace (rev (dropWhile isWhiteSpace s)))"

text \<open>\<open>s.replace(/c/g, rep)\<close> for a one-unit pattern \<open>c\<close>.\<close>

definition replaceAll :: "nat \<Rightarrow> jsstring \<Rightarrow> jsstring \<Rightarrow> jsstring" where
  "replaceAll c rep s = concat (map (\<lambda>x. if x = c then rep else [x]) s)"

fun startsWith :: "'a list \<Rightarrow> 'a list \<Rightarrow> bool" where
  "startsWith s [] = True"
| "startsWith [] (y # ys) = False"
| "startsWith (x # xs) (y # ys) = (x = y \<and> startsWith xs ys)"

text \<open>\<open>s.includes(q)\<close>, named \<open>includes_str\<close> here: \<open>q\<close> occurs in \<open>s\<close> as a contiguous run.\<close>

fun includes_str :: "'a list \<Rightarrow> 'a list \<Rightarrow> bool" where
  "includes_str [] q = (q = [])"
| "includes_str (x # xs) q = (startsWith (x # xs) q \<or> includes_str xs q)"

text \<open>\<open>xs.join(sep)\<close>.\<close>

fun join :: "'a list \<Rightarrow> 'a list list \<Rightarrow> 'a list" where
  "join sep [] = []"
| "join sep [x] = x"
| "join sep (x # y # ys) = x @ sep @ join sep (y # ys)"

text \<open>\<open>xs.findIndex(P)\<close>, with \<open>None\<close> for \<open>-1\<close>.\<close>

fun findIndex :: "('a \<Rightarrow> bool) \<Rightarrow> 'a list \<Rightarrow> nat option" where
  "findIndex P [] = None"
| "findIndex P (x # xs) = (if P x then Some 0 else map_option Suc (findIndex P xs))"

section \<open>User profiles and authentication\<close>

definition getUsers :: "state \<Rightarrow> UserProfile list" where
  "getUsers s = (case storedUsers s of None \<Rightarrow> [] | Some users \<Rightarrow> users)"

text \<open>\<open>localStorage.setItem(USERS_KEY, json)\<close>, for the JSON text of a user list.\<close>

definition setItem_users :: "UserProfile list \<Rightarrow> state \<Rightarrow> state" where
  "setItem_users users s = s\<lparr>storedUsers := Some users\<rparr>"

text \<open>
  \<open>saveUsers(users)\<close>. \<open>JSON.stringify\<close> throws a TypeError for a value that holds a
  cycle, before anything is written. A typed list holds no cycle, so the caller passes
  along whether the value it has built does (\<open>circular\<close>).
\<close>

definition saveUsers :: "UserProfile list \<Rightarrow> bool \<Rightarrow> state \<Rightarrow> state outcome" where
  "saveUsers users circular s =
     (if circular then Threw TypeError s else Done (setItem_users users s))"

definition getCurrentUserProfile :: "state \<Rightarrow> UserProfile" where
  "getCurrentUserProfile s = (case currentUser s of None \<Rightarrow> GUEST_PROFILE | Some u \<Rightarrow> u)"

text \<open>\<open>initializeChat(history)\<close>: a new chat handle, seeded with role and parts only.\<close>

definition initializeChat :: "Message list \<Rightarrow> state \<Rightarrow> state" where
  "initializeChat hist s = s\<lparr>chat := map (\<lambda>m. (role m, parts m)) hist\<rparr>"

text \<open>
  \<open>messagesEl.innerHTML = ''\<close>: the transcript loses its children, among them the
  response container of a request that is under way.
\<close>

definition emptyMessagesEl :: "state \<Rightarrow> state" where
  "emptyMessagesEl s =
     s\<lparr>messagesEl := [], pending := map (\<lambda>r. r\<lparr>container := None\<rparr>) (pending s)\<rparr>"

text \<open>
  \<open>updateUIForLogin(user)\<close>. Each of its three callers passes an object it has just
  parsed or built, of which no session history is the array \<open>currentMessages\<close>.
\<close>

definition updateUIForLogin :: "UserProfile \<Rightarrow> state \<Rightarrow> state" where
  "updateUIForLogin user s = s\<lparr>currentUser := Some user, historyShared := False\<rparr>"

definition updateUIForLogout :: "state \<Rightarrow> state" where
  "updateUIForLogout s =
     initializeChat []
       (emptyMessagesEl
          (s\<lparr>currentUser := None, currentMessages := [], currentLoadedSessionId := None,
             historyShared := False, metaCycle := False\<rparr>))"

section \<open>Rendering\<close>

text \<open>
  \<open>renderMessage\<close>. Reading \<open>message.parts[0].text\<close> of a message without parts throws
  a TypeError.
\<close>

definition renderMessage :: "state \<Rightarrow> Message \<Rightarrow> error + pElement" where
  "renderMessage s message =
     (let profile =
            (if role message = USER
             then (case meta message of
                     Some m \<Rightarrow> m
                   | None \<Rightarrow> (avatar (getCurrentUserProfile s), username (getCurrentUserProfile s)))
             else MODEL_PROFILE);
          escapedUsername =
            replaceAll 0x3E (str ''&gt;'') (replaceAll 0x3C (str ''&lt;'') (snd profile))
      in case parts message of
           [] \<Rightarrow> Inl TypeError
         | t # _ \<Rightarrow>
             Inr \<lparr>p_avatar = fst profile, p_username = escapedUsername, p_typing = False,
                  p_html = [replaceAll 0xA (str ''<br>'') t]\<rparr>)"

text \<open>The \<open>forEach\<close> of \<open>renderMessagesTo\<close>, appending to the children \<open>acc\<close> of the element.\<close>

fun renderEach :: "state \<Rightarrow> Message list \<Rightarrow> pElement list \<Rightarrow> pElement list outcome" where
  "renderEach s [] acc = Done acc"
| "renderEach s (msg # msgs) acc =
     (case renderMessage s msg of
        Inl e \<Rightarrow> Threw e acc
      | Inr p \<Rightarrow> renderEach s msgs (acc @ [p]))"

text \<open>\<open>renderMessagesTo(messagesEl, messages)\<close>: the element is emptied first.\<close>

definition renderMessagesTo :: "Message list \<Rightarrow> state \<Rightarrow> state outcome" where
  "renderMessagesTo messages s =
     (case renderEach s messages [] of
        Done ps \<Rightarrow> Done ((emptyMessagesEl s)\<lparr>messagesEl := ps\<rparr>)
      | Threw e ps \<Rightarrow> Threw e ((emptyMessagesEl s)\<lparr>messagesEl := ps\<rparr>))"

section \<open>Start of the process\<close>

text \<open>
  \<open>checkCurrentUserSession\<close>. \<open>currentMessages = latestSession.history\<close> makes the
  conversation the very array that the first session of \<open>currentUser\<close> holds.
\<close>

definition checkCurrentUserSession :: "state \<Rightarrow> state outcome" where
  "checkCurrentUserSession s =
     (case sessionUser s of
        None \<Rightarrow> Done s
      | Some name \<Rightarrow>
          if name = [] then Done s
          else (case find (\<lambda>u. username u = name) (getUsers s) of
                  None \<Rightarrow> Done s
                | Some userProfile \<Rightarrow>
                    (let s1 = updateUIForLogin userProfile s
                     in case chatHistory userProfile of
                          [] \<Rightarrow> Done s1
                        | latestSession # _ \<Rightarrow>
                            renderMessagesTo (history latestSession)
                              (initializeChat (history latestSession)
                                 (s1\<lparr>currentMessages := history latestSession,
                                     currentLoadedSessionId := Some (session_id latestSession),
                                     historyShared := True, metaCycle := False\<rparr>)))))"

text \<open>
  The state in which \<open>main\<close> declares its variables, for the two storage entries it
  finds, and \<open>main\<close> up to \<open>checkCurrentUserSession()\<close>.
\<close>

definition initialState :: "UserProfile list option \<Rightarrow> jsstring option \<Rightarrow> state" where
  "initialState users marker =
     \<lparr>storedUsers = users, sessionUser = marker, currentUser = None, currentMessages = [],
      currentLoadedSessionId = None, chat = [], messagesEl = [], userLoginError = False,
      signupError = False, historyShared = False, metaCycle = False, pending = []\<rparr>"

definition main :: "UserProfile list option \<Rightarrow> jsstring option \<Rightarrow> state outcome" where
  "main users marker = checkCurrentUserSession (initializeChat [] (initialState users marker))"

section \<open>Chat history\<close>

definition getChatSessions :: "state \<Rightarrow> ChatSession list" where
  "getChatSessions s =
     (case currentUser s of
        None \<Rightarrow> []
      | Some cu \<Rightarrow>
          (case find (\<lambda>u. username u = username cu) (getUsers s) of
             None \<Rightarrow> []
           | Some userProfile \<Rightarrow> chatHistory userProfile))"

text \<open>\<open>currentLoadedSessionId || Date.now()\<close>: \<open>null\<close> and \<open>0\<close> are both falsy.\<close>

definition sessionIdOr :: "int option \<Rightarrow> int \<Rightarrow> int" where
  "sessionIdOr loaded now = (case loaded of None \<Rightarrow> now | Some i \<Rightarrow> if i = 0 then now else i)"

text \<open>
  \<open>saveChatSession\<close>. It can throw a TypeError in two places and has written nothing
  when it does: reading \<open>currentMessages[0].parts[0].text\<close> of a first message without
  parts, and \<open>JSON.stringify\<close> in \<open>saveUsers\<close>. The user list it passes there is a
  fresh parse except for \<open>newSession.history\<close>, which is the array \<open>currentMessages\<close>;
  so the value holds a cycle exactly when the conversation does.
\<close>

definition saveChatSession :: "clock \<Rightarrow> state \<Rightarrow> state outcome" where
  "saveChatSession clk s =
     (case currentUser s of
        None \<Rightarrow> Done s
      | Some cu \<Rightarrow>
          (case currentMessages s of
             [] \<Rightarrow> Done s
           | first # _ \<Rightarrow>
               (let users = getUsers s
                in case findIndex (\<lambda>u. username u = username cu) users of
                     None \<Rightarrow> Done s
                   | Some userIndex \<Rightarrow>
                       (let userProfile = users ! userIndex;
                            sessions = filter (\<lambda>x. Some (session_id x) \<noteq> currentLoadedSessionId s)
                                         (chatHistory userProfile)
                        in case parts first of
                             [] \<Rightarrow> Threw TypeError s
                           | t # _ \<Rightarrow>
                               (let newSession =
                                      \<lparr>session_id = sessionIdOr (currentLoadedSessionId s) (Date_now clk),
                                       startTime = toISOString clk,
                                       title = take 40 t @ str ''...'',
                                       history = currentMessages s\<rparr>
                                in saveUsers
                                     (users[userIndex :=
                                        userProfile\<lparr>chatHistory := newSession # sessions\<rparr>])
                                     (metaCycle s) s)))))"

text \<open>
  The callback of \<open>sessions.filter\<close> in \<open>renderChatHistoryList\<close>. The message texts are
  read with \<open>m.parts[0].text\<close> before the three tests, so a message without parts
  throws whatever the title is.
\<close>

fun texts :: "Message list \<Rightarrow> error + jsstring list" where
  "texts [] = Inr []"
| "texts (m # ms) =
     (case parts m of
        [] \<Rightarrow> Inl TypeError
      | t # _ \<Rightarrow> (case texts ms of Inl e \<Rightarrow> Inl e | Inr ts \<Rightarrow> Inr (t # ts)))"

definition sessionMatches :: "platform \<Rightarrow> jsstring \<Rightarrow> ChatSession \<Rightarrow> error + bool" where
  "sessionMatches pf lowerCaseFilter session =
     (let dateString = toLocaleString pf (startTime session)
      in case texts (history session) of
           Inl e \<Rightarrow> Inl e
         | Inr ts \<Rightarrow>
             (let contentText = join (str '' '') ts
              in Inr (includes_str (toLowerCase pf (title session)) lowerCaseFilter \<or>
                      includes_str (toLowerCase pf dateString) lowerCaseFilter \<or>
                      includes_str (toLowerCase pf contentText) lowerCaseFilter)))"

fun filterWith :: "('a \<Rightarrow> error + bool) \<Rightarrow> 'a list \<Rightarrow> error + 'a list" where
  "filterWith f [] = Inr []"
| "filterWith f (x # xs) =
     (case f x of
        Inl e \<Rightarrow> Inl e
      | Inr b \<Rightarrow>
          (case filterWith f xs of
             Inl e \<Rightarrow> Inl e
           | Inr r \<Rightarrow> Inr (if b then x # r else r)))"

text \<open>\<open>filteredSessions\<close> of \<open>renderChatHistoryList(filter)\<close>, for the sessions it is given.\<close>

definition filterSessions :: "platform \<Rightarrow> jsstring \<Rightarrow> ChatSession list \<Rightarrow> error + ChatSession list" where
  "filterSessions pf query sessions =
     filterWith (sessionMatches pf (toLowerCase pf query)) sessions"

text \<open>
  \<open>renderChatHistoryList(filter)\<close>: the sessions it lists. The elements of the history
  page are not part of the state.
\<close>

definition renderChatHistoryList :: "platform \<Rightarrow> jsstring \<Rightarrow> state \<Rightarrow> error + ChatSession list" where
  "renderChatHistoryList pf query s =
     (case currentUser s of
        None \<Rightarrow> Inr []
      | Some _ \<Rightarrow> filterSessions pf query (getChatSessions s))"

text \<open>
  \<open>deleteChatSession(id)\<close>. The user list it passes to \<open>saveUsers\<close> is a fresh parse with
  one array filtered: it holds no cycle.
\<close>

definition deleteChatSession :: "platform \<Rightarrow> int \<Rightarrow> state \<Rightarrow> state outcome" where
  "deleteChatSession pf i s =
     (case currentUser s of
        None \<Rightarrow> Done s
      | Some cu \<Rightarrow>
          (let users = getUsers s
           in case findIndex (\<lambda>u. username u = username cu) users of
                None \<Rightarrow> Done s
              | Some userIndex \<Rightarrow>
                  (let sessions = filter (\<lambda>x. session_id x \<noteq> i) (chatHistory (users ! userIndex))
                   in case saveUsers
                             (users[userIndex := (users ! userIndex)\<lparr>chatHistory := sessions\<rparr>])
                             False s of
                        Threw e s' \<Rightarrow> Threw e s'
                      | Done s' \<Rightarrow>
                          (case renderChatHistoryList pf [] s' of
                             Inl e \<Rightarrow> Threw e s'
                           | Inr _ \<Rightarrow> Done s'))))"

section \<open>Event handlers\<close>

text \<open>
  \<open>loadChatButtonEl.onclick\<close>, as \<open>showHistoryDetailView(session)\<close> sets it. The session
  is one of a list that \<open>renderChatHistoryList\<close> has parsed from the store, so its
  history is an array that nothing else holds.
\<close>

definition loadChat :: "clock \<Rightarrow> ChatSession \<Rightarrow> state \<Rightarrow> state outcome" where
  "loadChat clk session s =
     (case saveChatSession clk s of
        Threw e s' \<Rightarrow> Threw e s'
      | Done s1 \<Rightarrow>
          renderMessagesTo (history session)
            (initializeChat (history session)
               (s1\<lparr>currentMessages := history session,
                   currentLoadedSessionId := Some (session_id session),
                   historyShared := False, metaCycle := False\<rparr>)))"

text \<open>The click handler of \<open>newChatButtonEl\<close>.\<close>

definition newChat :: "clock \<Rightarrow> state \<Rightarrow> state outcome" where
  "newChat clk s =
     (case saveChatSession clk s of
        Threw e s' \<Rightarrow> Threw e s'
      | Done s1 \<Rightarrow>
          Done (initializeChat []
                  (emptyMessagesEl
                     (s1\<lparr>currentMessages := [], currentLoadedSessionId := None,
                         historyShared := False, metaCycle := False\<rparr>))))"

text \<open>The click handler of \<open>logoutButtonEl\<close>.\<close>

definition logout :: "clock \<Rightarrow> state \<Rightarrow> state outcome" where
  "logout clk s =
     (case saveChatSession clk s of
        Threw e s' \<Rightarrow> Threw e s'
      | Done s1 \<Rightarrow> Done (updateUIForLogout (s1\<lparr>sessionUser := None\<rparr>)))"

text \<open>
  The submit handler of \<open>formEl\<close> is asynchronous: it runs to its first \<open>await\<close>, and
  then one step at a time, whenever a chunk arrives, the stream ends or the request
  fails; other handlers can run in between. \<open>submitStart\<close> is the handler up to
  \<open>await chat.sendMessageStream(...)\<close>. The user message holds a copy of the acting
  profile with its \<open>chatHistory\<close> array; pushed onto the array that the first session
  of that profile holds, it closes a cycle. The response container is the second of
  the two \<open>p\<close> elements that are appended to the transcript.
\<close>

definition submitStart :: "jsstring \<Rightarrow> state \<Rightarrow> state outcome" where
  "submitStart inputValue s =
     (let prompt = trim inputValue
      in if prompt = [] then Done s
         else
           (let userProfile = getCurrentUserProfile s;
                userMessage = \<lparr>role = USER, parts = [prompt],
                               meta = Some (avatar userProfile, username userProfile)\<rparr>;
                s1 = s\<lparr>currentMessages := currentMessages s @ [userMessage],
                       metaCycle := (metaCycle s \<or> (historyShared s \<and> currentUser s \<noteq> None))\<rparr>
            in case renderMessage s1 userMessage of
                 Inl e \<Rightarrow> Threw e s1
               | Inr p \<Rightarrow>
                   (let modelMessageEl = \<lparr>p_avatar = fst MODEL_PROFILE, p_username = snd MODEL_PROFILE,
                                           p_typing = True, p_html = []\<rparr>
                    in Done (s1\<lparr>messagesEl := messagesEl s1 @ [p, modelMessageEl],
                              pending := pending s1 @
                                [\<lparr>firstChunk = True, responseText = [],
                                  container = Some (Suc (length (messagesEl s1)))\<rparr>]\<rparr>))))"

text \<open>
  A write to the response container of a request: to its element in the transcript, or
  to nothing that is shown.
\<close>

definition onContainer :: "request \<Rightarrow> (pElement \<Rightarrow> pElement) \<Rightarrow> state \<Rightarrow> state" where
  "onContainer r f s =
     (case container r of
        None \<Rightarrow> s
      | Some j \<Rightarrow> s\<lparr>messagesEl := (messagesEl s)[j := f (messagesEl s ! j)]\<rparr>)"

text \<open>
  One turn of the \<open>for await\<close> loop, for the chunk that arrives for the \<open>k\<close>-th pending
  request: the typing indicator goes with the first chunk, and the chunk is one
  \<open>innerHTML +=\<close> on the response container.
\<close>

definition chunkArrives :: "nat \<Rightarrow> jsstring \<Rightarrow> state \<Rightarrow> state" where
  "chunkArrives k chunkText s =
     (if k < length (pending s)
      then (let r = pending s ! k;
                sanitizedChunkText = replaceAll 0xA (str ''<br>'') chunkText;
                s1 = onContainer r
                       (\<lambda>el. (if firstChunk r then el\<lparr>p_typing := False\<rparr> else el)
                               \<lparr>p_html := p_html el @ [sanitizedChunkText]\<rparr>) s
            in s1\<lparr>pending := (pending s1)
                     [k := r\<lparr>firstChunk := False, responseText := responseText r @ chunkText\<rparr>]\<rparr>)
      else s)"

text \<open>
  The stream of the \<open>k\<close>-th pending request ends: the MODEL message is pushed onto the
  array that \<open>currentMessages\<close> holds at that moment, and the \<open>finally\<close> block ends the
  handler.
\<close>

definition streamEnds :: "nat \<Rightarrow> state \<Rightarrow> state" where
  "streamEnds k s =
     (if k < length (pending s)
      then s\<lparr>currentMessages := currentMessages s @
                  [\<lparr>role = MODEL, parts = [responseText (pending s ! k)], meta = None\<rparr>],
               pending := take k (pending s) @ drop (Suc k) (pending s)\<rparr>
      else s)"

text \<open>
  The \<open>k\<close>-th pending request fails, at the call or at a read of the stream: the \<open>catch\<close>
  block removes the typing indicator if it is still there and writes the error notice,
  and the \<open>finally\<close> block ends the handler. No message is pushed.
\<close>

definition streamFails :: "nat \<Rightarrow> state \<Rightarrow> state" where
  "streamFails k s =
     (if k < length (pending s)
      then (onContainer (pending s ! k)
              (\<lambda>el. el\<lparr>p_typing := False,
                        p_html := p_html el @
                          [str ''<strong>Error:</strong> Could not retrieve response.'']\<rparr>) s)
             \<lparr>pending := take k (pending s) @ drop (Suc k) (pending s)\<rparr>
      else s)"

text \<open>
  What \<open>chat.sendMessageStream\<close> and the iteration of its stream deliver for one
  request: the chunks that arrive, and whether the request then fails (with no chunk,
  the call itself or the first read failed) or the stream ends.
\<close>

record response =
  chunks :: "jsstring list"
  failed :: bool

text \<open>The chunks arrive for the \<open>k\<close>-th pending request, one after the other.\<close>

fun streamChunks :: "nat \<Rightarrow> jsstring list \<Rightarrow> state \<Rightarrow> state" where
  "streamChunks k [] s = s"
| "streamChunks k (chunk # rest) s = streamChunks k rest (chunkArrives k chunk s)"

text \<open>
  \<open>submit\<close> is the submit handler run from the event to the end of its \<open>finally\<close> block
  with no other handler in between: the start, the chunks of the response, and the end
  or the failure of the stream. The new request is the last of the pending ones.
\<close>

definition submit :: "jsstring \<Rightarrow> response \<Rightarrow> state \<Rightarrow> state outcome" where
  "submit inputValue resp s =
     (if trim inputValue = [] then Done s
      else (case submitStart inputValue s of
              Threw e s1 \<Rightarrow> Threw e s1
            | Done s1 \<Rightarrow>
                (let k = length (pending s);
                     s2 = streamChunks k (chunks resp) s1
                 in Done (if failed resp then streamFails k s2 else streamEnds k s2))))"

text \<open>The submit handler of \<open>userLoginFormEl\<close>, for the two input values.\<close>

definition login :: "jsstring \<Rightarrow> jsstring \<Rightarrow> state \<Rightarrow> state" where
  "login name pw s =
     (case find (\<lambda>u. username u = name \<and> password u = Some pw) (getUsers s) of
        Some user \<Rightarrow>
          initializeChat []
            (emptyMessagesEl
               ((updateUIForLogin user (s\<lparr>sessionUser := Some (username user)\<rparr>))
                  \<lparr>userLoginError := False, currentMessages := [],
                   currentLoadedSessionId := None, metaCycle := False\<rparr>))
      | None \<Rightarrow> s\<lparr>userLoginError := True\<rparr>)"

text \<open>
  The submit handler of \<open>profileFormEl\<close>, for the two input values and the
  \<open>data-avatar\<close> of the selected avatar option, if one is selected. The user list it
  passes to \<open>saveUsers\<close> is a fresh parse and a literal: it holds no cycle. The handler
  assigns \<open>currentUser\<close> and leaves \<open>currentMessages\<close> as it is.
\<close>

definition signup :: "jsstring \<Rightarrow> jsstring \<Rightarrow> jsstring option \<Rightarrow> state \<Rightarrow> state" where
  "signup usernameInput passwordInput selectedAvatar s =
     (let users = getUsers s;
          name = trim usernameInput
      in if list_ex (\<lambda>u. username u = name) users
         then s\<lparr>signupError := True\<rparr>
         else
           (let newUser =
                  \<lparr>username = (if name = [] then str ''User'' else name),
                   avatar = (case selectedAvatar of
                               None \<Rightarrow> DEFAULT_AVATAR
                             | Some a \<Rightarrow> if a = [] then DEFAULT_AVATAR else a),
                   password = Some passwordInput,
                   chatHistory = []\<rparr>
            in case saveUsers (users @ [newUser]) False s of
                 Threw e s' \<Rightarrow> s'
               | Done s' \<Rightarrow>
                   (updateUIForLogin newUser (s'\<lparr>sessionUser := Some (username newUser)\<rparr>))
                     \<lparr>signupError := False\<rparr>))"

section \<open>Observers used in the statements\<close>

text \<open>The state a handler leaves behind, whether it ran to its end or threw.\<close>

fun result :: "'a outcome \<Rightarrow> 'a" where
  "result (Done x) = x"
| "result (Threw e x) = x"

text \<open>
  The session list of the profile that \<open>users.find\<close> returns for a user name: what
  \<open>getChatSessions\<close> reads for the current user.
\<close>

definition sessionsOf :: "jsstring \<Rightarrow> state \<Rightarrow> ChatSession list" where
  "sessionsOf name s =
     (case find (\<lambda>u. username u = name) (getUsers s) of
        None \<Rightarrow> []
      | Some userProfile \<Rightarrow> chatHistory userProfile)"

text \<open>
  \<open>newSession\<close> of \<open>saveChatSession\<close>, for a state in which the first message has a part.
\<close>

definition builtSession :: "clock \<Rightarrow> state \<Rightarrow> ChatSession" where
  "builtSession clk s =
     \<lparr>session_id = sessionIdOr (currentLoadedSessionId s) (Date_now clk),
      startTime = toISOString clk,
      title = (case currentMessages s of
                 [] \<Rightarrow> []
               | m # _ \<Rightarrow> (case parts m of [] \<Rightarrow> [] | t # _ \<Rightarrow> take 40 t @ str ''...'')),
      history = currentMessages s\<rparr>"

section \<open>Well-formed conversations\<close>

text \<open>
  Every message the program builds has exactly one part (the submit handler builds both
  kinds), so in the conversations it holds and stores every message has a part.
\<close>

definition hasParts :: "Message list \<Rightarrow> bool" where
  "hasParts msgs = list_all (\<lambda>m. parts m \<noteq> []) msgs"

section \<open>Invariant\<close>

text \<open>
  What holds of every session the program stores: its id is a clock reading and not \<open>0\<close>,
  and its history is a non-empty conversation in which every message has a part.
\<close>

definition sessionOk :: "ChatSession \<Rightarrow> bool" where
  "sessionOk x \<longleftrightarrow> session_id x \<noteq> 0 \<and> history x \<noteq> [] \<and> hasParts (history x)"

text \<open>A stored profile: a non-empty name, and sessions with distinct ids.\<close>

definition profileOk :: "UserProfile \<Rightarrow> bool" where
  "profileOk u \<longleftrightarrow>
     username u \<noteq> [] \<and> list_all sessionOk (chatHistory u) \<and>
     distinct (map session_id (chatHistory u))"

definition storeOk :: "UserProfile list \<Rightarrow> bool" where
  "storeOk users = list_all profileOk users"

text \<open>
  The invariant of the state: the store is well formed, the messages of the conversation
  have parts, the current user has a profile in the store, a persisted id is not \<open>0\<close>,
  and a conversation that holds a cycle is not empty and belongs to a user.
\<close>

definition inv :: "state \<Rightarrow> bool" where
  "inv s \<longleftrightarrow>
     storeOk (getUsers s) \<and> hasParts (currentMessages s) \<and>
     (case currentUser s of
        None \<Rightarrow> True
      | Some cu \<Rightarrow> list_ex (\<lambda>u. username u = username cu) (getUsers s)) \<and>
     (case currentLoadedSessionId s of None \<Rightarrow> True | Some i \<Rightarrow> i \<noteq> 0) \<and>
     (metaCycle s \<longrightarrow> currentUser s \<noteq> None \<and> currentMessages s \<noteq> [])"

text \<open>
  A clock reading that can be minted as a new id: \<open>Date.now()\<close> is not \<open>0\<close> and, being
  later than every earlier reading, is not the id of a session of the current user.
\<close>

definition freshClock :: "clock \<Rightarrow> state \<Rightarrow> bool" where
  "freshClock clk s \<longleftrightarrow>
     Date_now clk \<noteq> 0 \<and> Date_now clk \<notin> session_id ` set (getChatSessions s)"

text \<open>
  The events of the page with their inputs, the handler of each, and when the page
  offers it. A session can be loaded when it is in the list that the history page shows
  for the current user. A message can be submitted when no request is pending: the
  input and the send button are disabled from the submit to the \<open>finally\<close> block. A
  chunk, the end of the stream and the failure are events of a pending request.
\<close>

datatype event =
    Signup jsstring jsstring "jsstring option"
  | Login jsstring jsstring
  | Logout clock
  | NewChat clock
  | LoadChat clock ChatSession
  | Submit jsstring
  | Chunk nat jsstring
  | StreamEnd nat
  | StreamFail nat
  | Delete platform int

fun handler :: "event \<Rightarrow> state \<Rightarrow> state outcome" where
  "handler (Signup usernameInput passwordInput selectedAvatar) s =
     Done (signup usernameInput passwordInput selectedAvatar s)"
| "handler (Login name pw) s = Done (login name pw s)"
| "handler (Logout clk) s = logout clk s"
| "handler (NewChat clk) s = newChat clk s"
| "handler (LoadChat clk session) s = loadChat clk session s"
| "handler (Submit inputValue) s = submitStart inputValue s"
| "handler (Chunk k chunkText) s = Done (chunkArrives k chunkText s)"
| "handler (StreamEnd k) s = Done (streamEnds k s)"
| "handler (StreamFail k) s = Done (streamFails k s)"
| "handler (Delete pf i) s = deleteChatSession pf i s"

text \<open>
  The three events whose handler starts with \<open>saveChatSession()\<close>, with the clock that
  the save reads. No other code calls \<open>saveChatSession\<close>: the page saves a conversation
  by one of these events.
\<close>

fun saveClock :: "event \<Rightarrow> clock option" where
  "saveClock (Logout clk) = Some clk"
| "saveClock (NewChat clk) = Some clk"
| "saveClock (LoadChat clk session) = Some clk"
| "saveClock _ = None"

fun enabled :: "event \<Rightarrow> state \<Rightarrow> bool" where
  "enabled (Logout clk) s = freshClock clk s"
| "enabled (NewChat clk) s = freshClock clk s"
| "enabled (LoadChat clk session) s = (session \<in> set (getChatSessions s) \<and> freshClock clk s)"
| "enabled (Submit inputValue) s = (pending s = [])"
| "enabled (Chunk k chunkText) s = (k < length (pending s))"
| "enabled (StreamEnd k) s = (k < length (pending s))"
| "enabled (StreamFail k) s = (k < length (pending s))"
| "enabled _ s = True"

text \<open>
  The states the program reaches: \<open>main\<close> on a well-formed store, then the handlers of
  events that the page offers, each run to its end or to the point where it throws.
\<close>

inductive reachable :: "state \<Rightarrow> bool" where
  start: "storeOk (getUsers (initialState users marker)) \<Longrightarrow> main users marker = Done s \<Longrightarrow>
          reachable s"
| step: "reachable s \<Longrightarrow> enabled e s \<Longrightarrow> reachable (result (handler e s))"

section \<open>The match in the words of the specification\<close>

text \<open>The text of a message: that of its first part.\<close>

definition textOf :: "Message \<Rightarrow> jsstring" where
  "textOf m = (case parts m of [] \<Rightarrow> [] | t # _ \<Rightarrow> t)"

text \<open>
  The match of the specification, in its words: the query occurs, all in lower case, in
  the title, in the formatted start time, or in the concatenation of the texts of the
  messages. It is stated to be compared with \<open>sessionMatches\<close>.
\<close>

definition spec_sessionMatches :: "platform \<Rightarrow> jsstring \<Rightarrow> ChatSession \<Rightarrow> bool" where
  "spec_sessionMatches pf query session \<longleftrightarrow>
     includes_str (toLowerCase pf (title session)) (toLowerCase pf query) \<or>
     includes_str (toLowerCase pf (toLocaleString pf (startTime session))) (toLowerCase pf query) \<or>
     includes_str (toLowerCase pf (concat (map textOf (history session)))) (toLowerCase pf query)"

section \<open>Example states\<close>

text \<open>Alice, her two conversations, and the sessions they are saved as.\<close>

definition alice :: UserProfile where
  "alice = \<lparr>username = str ''alice'', avatar = [0xD83E, 0xDDD1], password = Some (str ''secret''),
            chatHistory = []\<rparr>"

definition hiConversation :: "Message list" where
  "hiConversation =
     [\<lparr>role = USER, parts = [str ''hi''], meta = Some ([0xD83E, 0xDDD1], str ''alice'')\<rparr>,
      \<lparr>role = MODEL, parts = [str ''hello''], meta = None\<rparr>]"

definition byeConversation :: "Message list" where
  "byeConversation =
     [\<lparr>role = USER, parts = [str ''bye''], meta = Some ([0xD83E, 0xDDD1], str ''alice'')\<rparr>,
      \<lparr>role = MODEL, parts = [str ''see you''], meta = None\<rparr>]"

definition hiSession :: ChatSession where
  "hiSession =
     \<lparr>session_id = 1735689601000, startTime = str ''2025-01-01T00:00:01.000Z'',
      title = str ''hi...'', history = hiConversation\<rparr>"

definition byeSession :: ChatSession where
  "byeSession =
     \<lparr>session_id = 1735689602000, startTime = str ''2025-01-01T00:00:02.000Z'',
      title = str ''bye...'', history = byeConversation\<rparr>"

definition aliceSaved :: UserProfile where
  "aliceSaved = alice\<lparr>chatHistory := [hiSession]\<rparr>"

definition aliceTwo :: UserProfile where
  "aliceTwo = alice\<lparr>chatHistory := [byeSession, hiSession]\<rparr>"


definition clock2 :: clock where
  "clock2 = \<lparr>Date_now = 1735689602000, toISOString = str ''2025-01-01T00:00:02.000Z''\<rparr>"

definition clock3 :: clock where
  "clock3 = \<lparr>Date_now = 1735689603000, toISOString = str ''2025-01-01T00:00:03.000Z''\<rparr>"

definition clock4 :: clock where
  "clock4 = \<lparr>Date_now = 1735689604000, toISOString = str ''2025-01-01T00:00:04.000Z''\<rparr>"


definition aliceBrowsing :: state where
  "aliceBrowsing =
     \<lparr>storedUsers = Some [alice\<lparr>chatHistory := [byeSession, hiSession]\<rparr>],
      sessionUser = Some (str ''alice''), currentUser = Some alice,
      currentMessages =
        [\<lparr>role = USER, parts = [str ''later''], meta = Some ([0xD83E, 0xDDD1], str ''alice'')\<rparr>],
      currentLoadedSessionId = None, chat = [], messagesEl = [],
      userLoginError = False, signupError = False,
      historyShared = False, metaCycle = False, pending = []\<rparr>"


text \<open>
  Alice comes back to the page: the store holds her profile with the saved session, the
  marker holds her name, and \<open>main\<close> restores the session. Then she sends one message
  and receives the reply.
\<close>

definition aliceRestored :: state where
  "aliceRestored = result (main (Some [aliceSaved]) (Some (str ''alice'')))"

definition aliceStuck :: state where
  "aliceStuck =
     result (submit (str ''again'') \<lparr>chunks = [str ''ok''], failed = False\<rparr> aliceRestored)"

text \<open>
  Alice, who has two saved sessions, opens the page with no marker, logs in and sends
  one message.
\<close>

definition aliceLater :: state where
  "aliceLater =
     result (submit (str ''later'') \<lparr>chunks = [str ''ok''], failed = False\<rparr>
       (login (str ''alice'') (str ''secret'') (result (main (Some [aliceTwo]) None))))"

text \<open>
  A platform for the examples: it lowers the letters A to Z and prints a start time as
  it is stored.
\<close>

definition asciiLower :: "nat \<Rightarrow> nat" where
  "asciiLower c = (if 0x41 \<le> c \<and> c \<le> 0x5A then c + 0x20 else c)"

definition examplePlatform :: platform where
  "examplePlatform = \<lparr>toLowerCase = map asciiLower, toLocaleString = (\<lambda>iso. iso)\<rparr>"

text \<open>A session of two one-letter messages.\<close>

definition abSession :: ChatSession where
  "abSession =
     \<lparr>session_id = 1735689601000, startTime = str ''2025-01-01T00:00:01.000Z'',
      title = str ''a...'',
      history = [\<lparr>role = USER, parts = [str ''a''], meta = None\<rparr>,
                 \<lparr>role = MODEL, parts = [str ''b''], meta = None\<rparr>]\<rparr>"

section \<open>Arrays and strings\<close>

lemma findIndex_Some_iff:
  "findIndex P xs = Some k \<longleftrightarrow> k < length xs \<and> P (xs ! k) \<and> (\<forall>j<k. \<not> P (xs ! j))"
proof (induction xs arbitrary: k)
  case Nil
  then show ?case by simp
next
  case (Cons x xs)
  show ?case
  proof (cases "P x")
    case True
    then show ?thesis by (cases k) auto
  next
    case False
    show ?thesis
    proof (cases k)
      case 0
      with False show ?thesis by auto
    next
      case (Suc n)
      with False Cons.IH [of n] show ?thesis
        by (auto simp: less_Suc_eq_0_disj)
    qed
  qed
qed

lemma findIndex_None_iff: "findIndex P xs = None \<longleftrightarrow> \<not> list_ex P xs"
  by (induction xs) auto

lemma findIndex_find: "findIndex P xs = Some k \<Longrightarrow> find P xs = Some (xs ! k)"
  by (induction xs arbitrary: k) (auto split: if_splits)

lemma findIndex_update:
  "findIndex P xs = Some k \<Longrightarrow> P y \<Longrightarrow> findIndex P (xs[k := y]) = Some k"
  by (induction xs arbitrary: k) (auto split: if_splits)

lemma find_update:
  "findIndex P xs = Some k \<Longrightarrow> P y \<Longrightarrow> find P (xs[k := y]) = Some y"
  by (induction xs arbitrary: k) (auto split: if_splits)

lemma list_ex_username:
  "list_ex (\<lambda>u. username u = name) users \<longleftrightarrow> name \<in> set (map username users)"
  by (auto simp: list_ex_iff)

lemma list_all_update: "list_all P xs \<Longrightarrow> P y \<Longrightarrow> list_all P (xs[k := y])"
  by (auto simp add: list_all_iff dest: set_update_subset_insert [THEN subsetD])

lemma filter_other_length:
  assumes "distinct (map f xs)" and "a \<in> f ` set xs"
  shows "Suc (length (filter (\<lambda>y. f y \<noteq> a) xs)) = length xs"
  using assms
proof (induction xs)
  case Nil
  then show ?case by simp
next
  case (Cons x xs)
  show ?case
  proof (cases "f x = a")
    case True
    with Cons.prems have "a \<notin> f ` set xs"
      by auto
    then have "filter (\<lambda>y. f y \<noteq> a) xs = xs"
      by (auto simp add: filter_id_conv)
    with True show ?thesis
      by simp
  next
    case False
    with Cons show ?thesis
      by auto
  qed
qed

lemma distinct_map_filter': "distinct (map f xs) \<Longrightarrow> distinct (map f (filter P xs))"
  by (induction xs) auto

lemma map_pair_split:
  "map (\<lambda>x. (f x, g x)) xs = ps \<Longrightarrow> map f xs = map fst ps \<and> map g xs = map snd ps"
  by auto

lemma startsWith_prefix: "startsWith s q \<longleftrightarrow> prefix q s"
  by (induction s q rule: startsWith.induct) auto

lemma includes_str_sublist: "includes_str s q \<longleftrightarrow> sublist q s"
proof (induction s)
  case Nil
  then show ?case by auto
next
  case (Cons x xs)
  then show ?case
    by (cases q) (auto simp add: startsWith_prefix sublist_Cons_right)
qed

lemma includes_str_empty: "includes_str s []"
  by (simp add: includes_str_sublist)

lemma trim_Cons:
  "\<not> isWhiteSpace x \<Longrightarrow> \<not> isWhiteSpace (last (x # xs)) \<Longrightarrow> trim (x # xs) = x # xs"
proof -
  assume x: "\<not> isWhiteSpace x" and l: "\<not> isWhiteSpace (last (x # xs))"
  have "dropWhile isWhiteSpace (rev (x # xs)) = rev (x # xs)"
    using l by (metis dropWhile_eq_self_iff hd_rev)
  then show ?thesis
    using x by (simp add: trim_def)
qed

lemmas trim_literal = trim_Cons isWhiteSpace_def str_def

section \<open>The store\<close>

lemma getUsers_setItem: "getUsers (setItem_users users s) = users"
  by (simp add: getUsers_def setItem_users_def)

lemma getUsers_cong: "storedUsers s' = storedUsers s \<Longrightarrow> getUsers s' = getUsers s"
  by (simp add: getUsers_def)

lemma getUsers_updates:
  "getUsers (sessionUser_update f1 s) = getUsers s"
  "getUsers (currentUser_update f2 s) = getUsers s"
  "getUsers (currentMessages_update f3 s) = getUsers s"
  "getUsers (currentLoadedSessionId_update f4 s) = getUsers s"
  "getUsers (chat_update f5 s) = getUsers s"
  "getUsers (messagesEl_update f6 s) = getUsers s"
  "getUsers (userLoginError_update f7 s) = getUsers s"
  "getUsers (signupError_update f8 s) = getUsers s"
  "getUsers (historyShared_update f9 s) = getUsers s"
  "getUsers (metaCycle_update f10 s) = getUsers s"
  "getUsers (pending_update f11 s) = getUsers s"
  "getUsers (emptyMessagesEl s) = getUsers s"
  by (simp_all add: getUsers_def emptyMessagesEl_def)

lemma emptyMessagesEl_fields:
  "storedUsers (emptyMessagesEl s) = storedUsers s"
  "sessionUser (emptyMessagesEl s) = sessionUser s"
  "currentUser (emptyMessagesEl s) = currentUser s"
  "currentMessages (emptyMessagesEl s) = currentMessages s"
  "currentLoadedSessionId (emptyMessagesEl s) = currentLoadedSessionId s"
  "chat (emptyMessagesEl s) = chat s"
  "messagesEl (emptyMessagesEl s) = []"
  "historyShared (emptyMessagesEl s) = historyShared s"
  "metaCycle (emptyMessagesEl s) = metaCycle s"
  by (simp_all add: emptyMessagesEl_def)

lemma setItem_fields:
  "currentUser (setItem_users users s) = currentUser s"
  "currentMessages (setItem_users users s) = currentMessages s"
  "currentLoadedSessionId (setItem_users users s) = currentLoadedSessionId s"
  "sessionUser (setItem_users users s) = sessionUser s"
  "historyShared (setItem_users users s) = historyShared s"
  "metaCycle (setItem_users users s) = metaCycle s"
  by (simp_all add: setItem_users_def)

lemma sessionsOf_cong: "storedUsers s' = storedUsers s \<Longrightarrow> sessionsOf name s' = sessionsOf name s"
  by (simp add: sessionsOf_def getUsers_def)

lemma getChatSessions_sessionsOf:
  "currentUser s = Some cu \<Longrightarrow> getChatSessions s = sessionsOf (username cu) s"
  by (simp add: getChatSessions_def sessionsOf_def)

lemma sessionsOf_findIndex:
  "findIndex (\<lambda>u. username u = name) (getUsers s) = Some k \<Longrightarrow>
   sessionsOf name s = chatHistory (getUsers s ! k)"
  by (simp add: sessionsOf_def findIndex_find)

lemma getChatSessions_findIndex:
  "currentUser s = Some cu \<Longrightarrow> findIndex (\<lambda>u. username u = username cu) (getUsers s) = Some k \<Longrightarrow>
   getChatSessions s = chatHistory (getUsers s ! k)"
  by (simp add: getChatSessions_sessionsOf sessionsOf_findIndex)

lemma sessionsOf_setItem_update:
  assumes "findIndex (\<lambda>u. username u = name) (getUsers s) = Some k"
  shows "sessionsOf name (setItem_users ((getUsers s)[k := (getUsers s ! k)\<lparr>chatHistory := h\<rparr>]) s) = h"
proof -
  from assms have "username (getUsers s ! k) = name"
    by (simp add: findIndex_Some_iff)
  then have "find (\<lambda>u. username u = name) ((getUsers s)[k := (getUsers s ! k)\<lparr>chatHistory := h\<rparr>])
             = Some ((getUsers s ! k)\<lparr>chatHistory := h\<rparr>)"
    using assms by (intro find_update) simp_all
  then show ?thesis
    by (simp add: sessionsOf_def getUsers_setItem)
qed

section \<open>Saving a conversation\<close>

text \<open>
  What \<open>saveChatSession\<close> returns, and the session list it leaves for the user.
\<close>

lemma saveChatSession_Done:
  assumes "currentUser s = Some cu"
    and "findIndex (\<lambda>u. username u = username cu) (getUsers s) = Some k"
    and "currentMessages s = m # ms"
    and "parts m = t # ts"
    and "\<not> metaCycle s"
  shows "saveChatSession clk s =
           Done (setItem_users
                   ((getUsers s)[k := (getUsers s ! k)
                      \<lparr>chatHistory := builtSession clk s #
                         filter (\<lambda>x. Some (session_id x) \<noteq> currentLoadedSessionId s)
                           (chatHistory (getUsers s ! k))\<rparr>])
                   s)"
  using assms by (simp add: saveChatSession_def saveUsers_def builtSession_def Let_def)

text \<open>
  A conversation that holds a cycle cannot be saved: \<open>saveChatSession\<close> throws and leaves
  the state as it is.
\<close>

lemma saveChatSession_Threw:
  assumes "currentUser s = Some cu"
    and "list_ex (\<lambda>u. username u = username cu) (getUsers s)"
    and "currentMessages s \<noteq> []"
    and "metaCycle s"
  shows "saveChatSession clk s = Threw TypeError s"
proof -
  from assms(2) obtain k where "findIndex (\<lambda>u. username u = username cu) (getUsers s) = Some k"
    using findIndex_None_iff [of "\<lambda>u. username u = username cu" "getUsers s"] by auto
  with assms(1,3,4) show ?thesis
    by (simp add: saveChatSession_def saveUsers_def Let_def split: list.splits)
qed

lemma saveChatSession_cyclic:
  "metaCycle s \<Longrightarrow> saveChatSession clk s = Done s \<or> saveChatSession clk s = Threw TypeError s"
  by (simp add: saveChatSession_def saveUsers_def Let_def split: option.splits list.splits)

lemma saveChatSession_cyclic_result: "metaCycle s \<Longrightarrow> result (saveChatSession clk s) = s"
  using saveChatSession_cyclic [of s clk] by auto

lemma saveChatSession_sessions:
  assumes "currentUser s = Some cu"
    and "list_ex (\<lambda>u. username u = username cu) (getUsers s)"
    and "currentMessages s = m # ms"
    and "parts m \<noteq> []"
    and "\<not> metaCycle s"
  shows "\<exists>s'. saveChatSession clk s = Done s' \<and>
           sessionsOf (username cu) s' =
             builtSession clk s #
               filter (\<lambda>x. Some (session_id x) \<noteq> currentLoadedSessionId s)
                 (sessionsOf (username cu) s) \<and>
           map username (getUsers s') = map username (getUsers s) \<and>
           currentUser s' = currentUser s \<and> currentMessages s' = currentMessages s \<and>
           currentLoadedSessionId s' = currentLoadedSessionId s \<and>
           sessionUser s' = sessionUser s \<and> chat s' = chat s \<and> messagesEl s' = messagesEl s \<and>
           historyShared s' = historyShared s \<and> metaCycle s' = metaCycle s"
proof -
  from assms(2) obtain k where k: "findIndex (\<lambda>u. username u = username cu) (getUsers s) = Some k"
    using findIndex_None_iff [of "\<lambda>u. username u = username cu" "getUsers s"] by auto
  from assms(4) obtain t ts where t: "parts m = t # ts"
    by (cases "parts m") auto
  have un: "username (getUsers s ! k) = username cu" and kl: "k < length (getUsers s)"
    using k by (simp_all add: findIndex_Some_iff)
  show ?thesis
    unfolding saveChatSession_Done [OF assms(1) k assms(3) t assms(5)]
    using un kl
    by (simp add: sessionsOf_setItem_update [OF k] sessionsOf_findIndex [OF k]
        getUsers_setItem map_update)
      (simp add: setItem_users_def list_eq_iff_nth_eq nth_list_update)
qed

lemma saveChatSession_nothing: "currentMessages s = [] \<Longrightarrow> saveChatSession clk s = Done s"
  by (simp add: saveChatSession_def split: option.splits)

lemma saveChatSession_guest: "currentUser s = None \<Longrightarrow> saveChatSession clk s = Done s"
  by (simp add: saveChatSession_def)

lemma saveChatSession_cases:
  assumes cu: "currentUser s = Some cu"
    and ex: "list_ex (\<lambda>u. username u = username cu) (getUsers s)"
    and hp: "hasParts (currentMessages s)"
    and nc: "\<not> metaCycle s"
  shows "\<exists>s1. saveChatSession clk s = Done s1 \<and>
           sessionsOf (username cu) s1 =
             (if currentMessages s = [] then sessionsOf (username cu) s
              else builtSession clk s #
                     filter (\<lambda>x. Some (session_id x) \<noteq> currentLoadedSessionId s)
                       (sessionsOf (username cu) s)) \<and>
           map username (getUsers s1) = map username (getUsers s) \<and>
           currentUser s1 = Some cu \<and> currentMessages s1 = currentMessages s \<and>
           currentLoadedSessionId s1 = currentLoadedSessionId s \<and>
           sessionUser s1 = sessionUser s \<and> chat s1 = chat s \<and> messagesEl s1 = messagesEl s \<and>
           historyShared s1 = historyShared s \<and> metaCycle s1 = metaCycle s"
proof (cases "currentMessages s")
  case Nil
  then show ?thesis
    using cu by (simp add: saveChatSession_nothing)
next
  case (Cons m ms)
  with hp have "parts m \<noteq> []"
    by (simp add: hasParts_def)
  from saveChatSession_sessions [OF cu ex Cons this nc, of clk] show ?thesis
    using cu Cons by auto
qed

lemma builtSession_id_loaded:
  "currentLoadedSessionId s = Some i \<Longrightarrow> i \<noteq> 0 \<Longrightarrow> session_id (builtSession clk s) = i"
  by (simp add: builtSession_def sessionIdOr_def)

lemma builtSession_id_new:
  "currentLoadedSessionId s = None \<or> currentLoadedSessionId s = Some 0 \<Longrightarrow>
   session_id (builtSession clk s) = Date_now clk"
  by (auto simp add: builtSession_def sessionIdOr_def)

section \<open>Rendering and the handlers\<close>

lemma renderMessage_part:
  "parts m = t # ts \<Longrightarrow> \<exists>p. renderMessage s m = Inr p"
  by (simp add: renderMessage_def Let_def)

lemma renderEach_result:
  "\<exists>ps. renderEach s msgs acc = Done ps \<or> (\<exists>e. renderEach s msgs acc = Threw e ps)"
  by (induction msgs arbitrary: acc) (auto split: sum.splits)

lemma renderEach_Done:
  "hasParts msgs \<Longrightarrow> \<exists>ps. renderEach s msgs acc = Done ps"
proof (induction msgs arbitrary: acc)
  case Nil
  then show ?case by simp
next
  case (Cons m msgs)
  then obtain t ts where "parts m = t # ts"
    by (cases "parts m") (auto simp: hasParts_def)
  then obtain p where "renderMessage s m = Inr p"
    using renderMessage_part by blast
  with Cons show ?case
    by (simp add: hasParts_def)
qed

lemma renderMessagesTo_result:
  "\<exists>ps. result (renderMessagesTo msgs s) = (emptyMessagesEl s)\<lparr>messagesEl := ps\<rparr>"
  using renderEach_result [of s msgs "[]"]
  by (auto simp add: renderMessagesTo_def)

lemma renderMessagesTo_Done:
  "hasParts msgs \<Longrightarrow>
   \<exists>ps. renderMessagesTo msgs s = Done ((emptyMessagesEl s)\<lparr>messagesEl := ps\<rparr>)"
  using renderEach_Done [of msgs s "[]"]
  by (auto simp add: renderMessagesTo_def)

text \<open>
  The submit handler run without interruption, step by step: what its start leaves, what
  the chunks make of the response container and of \<open>responseText\<close>, and where the end
  or the failure of the stream leaves the state.
\<close>

lemma submitStart_empty: "trim inputValue = [] \<Longrightarrow> submitStart inputValue s = Done s"
  by (simp add: submitStart_def)

lemma submitStart_Done:
  assumes "trim inputValue \<noteq> []"
  shows "\<exists>s1 p. submitStart inputValue s = Done s1 \<and>
           currentMessages s1 =
             currentMessages s @
               [\<lparr>role = USER, parts = [trim inputValue],
                  meta = Some (avatar (getCurrentUserProfile s), username (getCurrentUserProfile s))\<rparr>] \<and>
           messagesEl s1 =
             messagesEl s @
               [p, \<lparr>p_avatar = fst MODEL_PROFILE, p_username = snd MODEL_PROFILE,
                    p_typing = True, p_html = []\<rparr>] \<and>
           pending s1 =
             pending s @
               [\<lparr>firstChunk = True, responseText = [],
                 container = Some (Suc (length (messagesEl s)))\<rparr>] \<and>
           storedUsers s1 = storedUsers s \<and> sessionUser s1 = sessionUser s \<and>
           currentUser s1 = currentUser s \<and>
           currentLoadedSessionId s1 = currentLoadedSessionId s \<and> chat s1 = chat s \<and>
           historyShared s1 = historyShared s \<and>
           metaCycle s1 = (metaCycle s \<or> (historyShared s \<and> currentUser s \<noteq> None))"
  using assms by (simp add: submitStart_def Let_def renderMessage_def)

lemma chunkArrives_fields:
  "storedUsers (chunkArrives k c s) = storedUsers s"
  "sessionUser (chunkArrives k c s) = sessionUser s"
  "currentUser (chunkArrives k c s) = currentUser s"
  "currentMessages (chunkArrives k c s) = currentMessages s"
  "currentLoadedSessionId (chunkArrives k c s) = currentLoadedSessionId s"
  "chat (chunkArrives k c s) = chat s"
  "historyShared (chunkArrives k c s) = historyShared s"
  "metaCycle (chunkArrives k c s) = metaCycle s"
  by (simp_all add: chunkArrives_def onContainer_def Let_def split: option.splits)

lemma chunkArrives_last:
  assumes "pending s = ps @ [r]" and "container r = Some (Suc (length view))"
    and "messagesEl s = view @ [p, el]"
  shows "pending (chunkArrives (length ps) c s) =
           ps @ [r\<lparr>firstChunk := False, responseText := responseText r @ c\<rparr>]"
    and "messagesEl (chunkArrives (length ps) c s) =
           view @ [p, el\<lparr>p_typing := (if firstChunk r then False else p_typing el),
                         p_html := p_html el @ [replaceAll 0xA (str ''<br>'') c]\<rparr>]"
  using assms
  by (simp_all add: chunkArrives_def onContainer_def Let_def nth_append list_update_append)

lemma streamChunks_last:
  assumes "pending s = ps @ [r]" and "container r = Some (Suc (length view))"
    and "messagesEl s = view @ [p, el]"
  shows "pending (streamChunks (length ps) cs s) =
           ps @ [r\<lparr>firstChunk := (firstChunk r \<and> cs = []),
                    responseText := responseText r @ concat cs\<rparr>] \<and>
         messagesEl (streamChunks (length ps) cs s) =
           view @ [p, el\<lparr>p_typing := (if firstChunk r \<and> cs \<noteq> [] then False else p_typing el),
                         p_html := p_html el @ map (replaceAll 0xA (str ''<br>'')) cs\<rparr>] \<and>
         storedUsers (streamChunks (length ps) cs s) = storedUsers s \<and>
         sessionUser (streamChunks (length ps) cs s) = sessionUser s \<and>
         currentUser (streamChunks (length ps) cs s) = currentUser s \<and>
         currentMessages (streamChunks (length ps) cs s) = currentMessages s \<and>
         currentLoadedSessionId (streamChunks (length ps) cs s) = currentLoadedSessionId s \<and>
         chat (streamChunks (length ps) cs s) = chat s \<and>
         historyShared (streamChunks (length ps) cs s) = historyShared s \<and>
         metaCycle (streamChunks (length ps) cs s) = metaCycle s"
  using assms
proof (induction cs arbitrary: s r el)
  case Nil
  then show ?case
    by simp
next
  case (Cons c cs)
  let ?r = "r\<lparr>firstChunk := False, responseText := responseText r @ c\<rparr>"
  let ?el = "el\<lparr>p_typing := (if firstChunk r then False else p_typing el),
                 p_html := p_html el @ [replaceAll 0xA (str ''<br>'') c]\<rparr>"
  let ?s = "chunkArrives (length ps) c s"
  have 1: "pending ?s = ps @ [?r]" and 3: "messagesEl ?s = view @ [p, ?el]"
    using chunkArrives_last [OF Cons.prems] by simp_all
  have 2: "container ?r = Some (Suc (length view))"
    using Cons.prems(2) by simp
  from Cons.IH [OF 1 2 3] show ?case
    by (simp add: chunkArrives_fields)
qed

lemma submit_empty: "trim inputValue = [] \<Longrightarrow> submit inputValue resp s = Done s"
  by (simp add: submit_def)

lemma submit_Done:
  assumes "trim inputValue \<noteq> []"
  shows "\<exists>s' p. submit inputValue resp s = Done s' \<and>
           currentMessages s' =
             currentMessages s @
               \<lparr>role = USER, parts = [trim inputValue],
                 meta = Some (avatar (getCurrentUserProfile s), username (getCurrentUserProfile s))\<rparr> #
               (if failed resp then []
                else [\<lparr>role = MODEL, parts = [concat (chunks resp)], meta = None\<rparr>]) \<and>
           messagesEl s' =
             messagesEl s @
               [p, \<lparr>p_avatar = fst MODEL_PROFILE, p_username = snd MODEL_PROFILE,
                    p_typing = (chunks resp = [] \<and> \<not> failed resp),
                    p_html = map (replaceAll 0xA (str ''<br>'')) (chunks resp) @
                      (if failed resp
                       then [str ''<strong>Error:</strong> Could not retrieve response.'']
                       else [])\<rparr>] \<and>
           pending s' = pending s \<and>
           storedUsers s' = storedUsers s \<and> sessionUser s' = sessionUser s \<and>
           currentUser s' = currentUser s \<and>
           currentLoadedSessionId s' = currentLoadedSessionId s \<and> chat s' = chat s \<and>
           historyShared s' = historyShared s \<and>
           metaCycle s' = (metaCycle s \<or> (historyShared s \<and> currentUser s \<noteq> None))"
proof -
  let ?k = "length (pending s)"
  let ?r = "\<lparr>firstChunk = True, responseText = [],
             container = Some (Suc (length (messagesEl s)))\<rparr>"
  let ?el = "\<lparr>p_avatar = fst MODEL_PROFILE, p_username = snd MODEL_PROFILE,
              p_typing = True, p_html = []\<rparr>"
  from submitStart_Done [OF assms, of s]
  obtain s1 p where s1: "submitStart inputValue s = Done s1"
    and m1: "currentMessages s1 =
             currentMessages s @
               [\<lparr>role = USER, parts = [trim inputValue],
                  meta = Some (avatar (getCurrentUserProfile s), username (getCurrentUserProfile s))\<rparr>]"
    and v1: "messagesEl s1 = messagesEl s @ [p, ?el]"
    and p1: "pending s1 = pending s @ [?r]"
    and f1: "storedUsers s1 = storedUsers s" "sessionUser s1 = sessionUser s"
      "currentUser s1 = currentUser s" "currentLoadedSessionId s1 = currentLoadedSessionId s"
      "chat s1 = chat s" "historyShared s1 = historyShared s"
      "metaCycle s1 = (metaCycle s \<or> (historyShared s \<and> currentUser s \<noteq> None))"
    by blast
  define s2 where "s2 = streamChunks ?k (chunks resp) s1"
  have c: "container ?r = Some (Suc (length (messagesEl s)))"
    by simp
  note sc = streamChunks_last [OF p1 c v1, of "chunks resp", folded s2_def]
  from sc have p2: "pending s2 = pending s @
      [\<lparr>firstChunk = (chunks resp = []), responseText = concat (chunks resp),
        container = Some (Suc (length (messagesEl s)))\<rparr>]"
    and v2: "messagesEl s2 = messagesEl s @
      [p, \<lparr>p_avatar = fst MODEL_PROFILE, p_username = snd MODEL_PROFILE,
           p_typing = (chunks resp = []),
           p_html = map (replaceAll 0xA (str ''<br>'')) (chunks resp)\<rparr>]"
    and f2: "storedUsers s2 = storedUsers s1" "sessionUser s2 = sessionUser s1"
      "currentUser s2 = currentUser s1" "currentMessages s2 = currentMessages s1"
      "currentLoadedSessionId s2 = currentLoadedSessionId s1" "chat s2 = chat s1"
      "historyShared s2 = historyShared s1" "metaCycle s2 = metaCycle s1"
    by simp_all
  have r: "submit inputValue resp s =
      Done (if failed resp then streamFails ?k s2 else streamEnds ?k s2)"
    using assms s1 by (simp add: submit_def Let_def s2_def)
  show ?thesis
  proof (cases "failed resp")
    case True
    have "messagesEl (streamFails ?k s2) = messagesEl s @
      [p, \<lparr>p_avatar = fst MODEL_PROFILE, p_username = snd MODEL_PROFILE,
           p_typing = False,
           p_html = map (replaceAll 0xA (str ''<br>'')) (chunks resp) @
             [str ''<strong>Error:</strong> Could not retrieve response.'']\<rparr>]"
      by (simp add: streamFails_def onContainer_def p2 v2 nth_append list_update_append)
    then show ?thesis
      using True r
      by (simp add: streamFails_def onContainer_def p2 f2 f1 m1)
  next
    case False
    then show ?thesis
      using r by (simp add: streamEnds_def p2 v2 f2 f1 m1)
  qed
qed

text \<open>
  The end and the failure of a stream, in whatever state they arrive: the failure pushes
  no message and writes nothing to the store; the end pushes the MODEL message.
\<close>

lemma streamFails_fields:
  "currentMessages (streamFails k s) = currentMessages s"
  "storedUsers (streamFails k s) = storedUsers s"
  "sessionUser (streamFails k s) = sessionUser s"
  "currentUser (streamFails k s) = currentUser s"
  "currentLoadedSessionId (streamFails k s) = currentLoadedSessionId s"
  "chat (streamFails k s) = chat s"
  "historyShared (streamFails k s) = historyShared s"
  "metaCycle (streamFails k s) = metaCycle s"
  by (simp_all add: streamFails_def onContainer_def split: option.splits)

lemma streamEnds_fields:
  "currentMessages (streamEnds k s) =
     (if k < length (pending s)
      then currentMessages s @
             [\<lparr>role = MODEL, parts = [responseText (pending s ! k)], meta = None\<rparr>]
      else currentMessages s)"
  "storedUsers (streamEnds k s) = storedUsers s"
  "sessionUser (streamEnds k s) = sessionUser s"
  "currentUser (streamEnds k s) = currentUser s"
  "currentLoadedSessionId (streamEnds k s) = currentLoadedSessionId s"
  "chat (streamEnds k s) = chat s"
  "messagesEl (streamEnds k s) = messagesEl s"
  "historyShared (streamEnds k s) = historyShared s"
  "metaCycle (streamEnds k s) = metaCycle s"
  by (simp_all add: streamEnds_def)

lemma newChat_Done:
  "saveChatSession clk s = Done s1 \<Longrightarrow>
   newChat clk s =
     Done (initializeChat []
             (emptyMessagesEl
                (s1\<lparr>currentMessages := [], currentLoadedSessionId := None,
                    historyShared := False, metaCycle := False\<rparr>)))"
  by (simp add: newChat_def)

lemma saving_handlers_Threw:
  assumes "saveChatSession clk s = Threw e s'"
  shows "newChat clk s = Threw e s'" and "logout clk s = Threw e s'"
    and "loadChat clk x s = Threw e s'"
  using assms by (simp_all add: newChat_def logout_def loadChat_def)

lemma logout_Done:
  "saveChatSession clk s = Done s1 \<Longrightarrow>
   logout clk s = Done (updateUIForLogout (s1\<lparr>sessionUser := None\<rparr>))"
  by (simp add: logout_def)

lemma loadChat_result:
  assumes "saveChatSession clk s = Done s1"
  shows "storedUsers (result (loadChat clk x s)) = storedUsers s1 \<and>
         sessionUser (result (loadChat clk x s)) = sessionUser s1 \<and>
         currentUser (result (loadChat clk x s)) = currentUser s1 \<and>
         currentMessages (result (loadChat clk x s)) = history x \<and>
         currentLoadedSessionId (result (loadChat clk x s)) = Some (session_id x) \<and>
         chat (result (loadChat clk x s)) = map (\<lambda>m. (role m, parts m)) (history x) \<and>
         \<not> historyShared (result (loadChat clk x s)) \<and>
         \<not> metaCycle (result (loadChat clk x s)) \<and>
         (hasParts (history x) \<longrightarrow> loadChat clk x s = Done (result (loadChat clk x s)))"
proof -
  let ?s2 = "initializeChat (history x)
               (s1\<lparr>currentMessages := history x, currentLoadedSessionId := Some (session_id x),
                   historyShared := False, metaCycle := False\<rparr>)"
  have l: "loadChat clk x s = renderMessagesTo (history x) ?s2"
    using assms by (simp add: loadChat_def)
  from renderMessagesTo_result [of "history x" ?s2]
  obtain ps where "result (renderMessagesTo (history x) ?s2) =
      (emptyMessagesEl ?s2)\<lparr>messagesEl := ps\<rparr>" ..
  moreover have "hasParts (history x) \<longrightarrow> loadChat clk x s = Done (result (loadChat clk x s))"
    using renderMessagesTo_Done [of "history x" ?s2] l by auto
  ultimately show ?thesis
    using l by (simp add: initializeChat_def emptyMessagesEl_fields)
qed

lemma checkCurrentUserSession_empty_list:
  "sessionUser s = Some name \<Longrightarrow> name \<noteq> [] \<Longrightarrow>
   find (\<lambda>u. username u = name) (getUsers s) = Some p \<Longrightarrow> chatHistory p = [] \<Longrightarrow>
   checkCurrentUserSession s = Done (updateUIForLogin p s)"
  by (simp add: checkCurrentUserSession_def)

lemma checkCurrentUserSession_latest:
  "sessionUser s = Some name \<Longrightarrow> name \<noteq> [] \<Longrightarrow>
   find (\<lambda>u. username u = name) (getUsers s) = Some p \<Longrightarrow> chatHistory p = latest # rest \<Longrightarrow>
   checkCurrentUserSession s =
     renderMessagesTo (history latest)
       (initializeChat (history latest)
          ((updateUIForLogin p s)\<lparr>currentMessages := history latest,
             currentLoadedSessionId := Some (session_id latest),
             historyShared := True, metaCycle := False\<rparr>))"
  by (simp add: checkCurrentUserSession_def)

lemma checkCurrentUserSession_absent:
  "sessionUser s = None \<or>
   (sessionUser s = Some name \<and> find (\<lambda>u. username u = name) (getUsers s) = None) \<Longrightarrow>
   checkCurrentUserSession s = Done s"
  by (auto simp add: checkCurrentUserSession_def)

lemma signup_new:
  assumes "\<not> list_ex (\<lambda>u. username u = trim usernameInput) (getUsers s)"
  shows "signup usernameInput passwordInput selectedAvatar s =
           s\<lparr>storedUsers := Some (getUsers s @
                [\<lparr>username = (if trim usernameInput = [] then str ''User'' else trim usernameInput),
                  avatar = (case selectedAvatar of
                              None \<Rightarrow> DEFAULT_AVATAR
                            | Some a \<Rightarrow> if a = [] then DEFAULT_AVATAR else a),
                  password = Some passwordInput, chatHistory = []\<rparr>]),
             sessionUser := Some (if trim usernameInput = [] then str ''User'' else trim usernameInput),
             currentUser := Some
                \<lparr>username = (if trim usernameInput = [] then str ''User'' else trim usernameInput),
                  avatar = (case selectedAvatar of
                              None \<Rightarrow> DEFAULT_AVATAR
                            | Some a \<Rightarrow> if a = [] then DEFAULT_AVATAR else a),
                  password = Some passwordInput, chatHistory = []\<rparr>,
             signupError := False, historyShared := False\<rparr>"
  using assms by (simp add: signup_def Let_def saveUsers_def setItem_users_def updateUIForLogin_def)

lemma signup_taken:
  "list_ex (\<lambda>u. username u = trim usernameInput) (getUsers s) \<Longrightarrow>
   signup usernameInput passwordInput selectedAvatar s = s\<lparr>signupError := True\<rparr>"
  by (simp add: signup_def Let_def)

lemma signup_keeps_distinct:
  assumes "distinct (map username (getUsers s))" and "trim usernameInput \<noteq> []"
  shows "distinct (map username (getUsers (signup usernameInput passwordInput selectedAvatar s)))"
proof (cases "list_ex (\<lambda>u. username u = trim usernameInput) (getUsers s)")
  case True
  then show ?thesis
    using assms(1) by (simp add: signup_taken getUsers_def)
next
  case False
  from signup_new [OF this, of passwordInput selectedAvatar] False assms show ?thesis
    by (simp add: getUsers_def list_ex_username)
qed

lemma signup_usernames_nonempty:
  assumes "list_all (\<lambda>u. username u \<noteq> []) (getUsers s)"
  shows "list_all (\<lambda>u. username u \<noteq> []) (getUsers (signup usernameInput passwordInput selectedAvatar s))"
proof (cases "list_ex (\<lambda>u. username u = trim usernameInput) (getUsers s)")
  case True
  then show ?thesis
    using assms by (simp add: signup_taken getUsers_def)
next
  case False
  from signup_new [OF this, of passwordInput selectedAvatar] assms show ?thesis
    by (simp add: getUsers_def str_def)
qed

section \<open>The history filter\<close>

lemma texts_Inr: "hasParts msgs \<Longrightarrow> texts msgs = Inr (map textOf msgs)"
  by (induction msgs) (auto simp add: hasParts_def textOf_def split: list.splits)

lemma sessionMatches_Inr:
  "hasParts (history x) \<Longrightarrow>
   sessionMatches pf q x =
     Inr (includes_str (toLowerCase pf (title x)) q \<or>
          includes_str (toLowerCase pf (toLocaleString pf (startTime x))) q \<or>
          includes_str (toLowerCase pf (join (str '' '') (map textOf (history x)))) q)"
  by (simp add: sessionMatches_def texts_Inr)

lemma filterWith_Inr:
  "list_all (\<lambda>x. f x = Inr (g x)) xs \<Longrightarrow> filterWith f xs = Inr (filter g xs)"
  by (induction xs) auto

lemma filterSessions_Inr:
  assumes "list_all (\<lambda>x. hasParts (history x)) sessions"
  shows "\<exists>r. filterSessions pf query sessions = Inr r"
proof -
  have "list_all (\<lambda>x. sessionMatches pf (toLowerCase pf query) x =
      Inr (includes_str (toLowerCase pf (title x)) (toLowerCase pf query) \<or>
           includes_str (toLowerCase pf (toLocaleString pf (startTime x))) (toLowerCase pf query) \<or>
           includes_str (toLowerCase pf (join (str '' '') (map textOf (history x))))
             (toLowerCase pf query))) sessions"
    using assms by (simp add: list_all_iff sessionMatches_Inr)
  from filterWith_Inr [OF this] show ?thesis
    by (simp add: filterSessions_def)
qed

section \<open>The invariant holds in every reachable state\<close>

text \<open>
  \<open>main\<close> on a well-formed store runs to its end and establishes the invariant. In a
  state that satisfies it, every handler that the page offers leaves such a state; it
  runs to its end, except that \<open>saveChatSession\<close> throws, in the three handlers that
  call it, when the conversation holds a cycle.
\<close>

lemma storeOk_nth: "storeOk users \<Longrightarrow> k < length users \<Longrightarrow> profileOk (users ! k)"
  by (simp add: storeOk_def list_all_iff)

lemma getChatSessions_ok:
  assumes "inv s"
  shows "list_all sessionOk (getChatSessions s)"
proof (cases "currentUser s")
  case None
  then show ?thesis by (simp add: getChatSessions_def)
next
  case (Some cu)
  with assms obtain k where k: "findIndex (\<lambda>u. username u = username cu) (getUsers s) = Some k"
    using findIndex_None_iff [of "\<lambda>u. username u = username cu" "getUsers s"]
    by (auto simp add: inv_def)
  then have "k < length (getUsers s)"
    by (simp add: findIndex_Some_iff)
  with assms have "profileOk (getUsers s ! k)"
    by (simp add: inv_def storeOk_nth)
  then show ?thesis
    by (simp add: getChatSessions_findIndex [OF Some k] profileOk_def)
qed

lemma inv_user_stored:
  "inv s \<Longrightarrow> currentUser s = Some cu \<Longrightarrow> list_ex (\<lambda>u. username u = username cu) (getUsers s)"
  by (simp add: inv_def)

lemma inv_hasParts: "inv s \<Longrightarrow> hasParts (currentMessages s)"
  by (simp add: inv_def)

lemma inv_sessions_distinct:
  assumes "inv s"
  shows "distinct (map session_id (getChatSessions s))"
proof (cases "currentUser s")
  case None
  then show ?thesis by (simp add: getChatSessions_def)
next
  case (Some cu)
  with assms obtain k where k: "findIndex (\<lambda>u. username u = username cu) (getUsers s) = Some k"
    using findIndex_None_iff [of "\<lambda>u. username u = username cu" "getUsers s"]
    by (auto simp add: inv_def)
  then have "k < length (getUsers s)"
    by (simp add: findIndex_Some_iff)
  with assms have "profileOk (getUsers s ! k)"
    by (simp add: inv_def storeOk_nth)
  then show ?thesis
    by (simp add: getChatSessions_findIndex [OF Some k] profileOk_def)
qed

lemma inv_fields:
  assumes "inv s" and "storedUsers s' = storedUsers s"
    and "currentUser s' = currentUser s \<or> currentUser s' = None"
    and "hasParts (currentMessages s')"
    and "currentLoadedSessionId s' = currentLoadedSessionId s \<or>
         currentLoadedSessionId s' = None \<or>
         (\<exists>i. currentLoadedSessionId s' = Some i \<and> i \<noteq> 0)"
    and "metaCycle s' \<longrightarrow> currentUser s' \<noteq> None \<and> currentMessages s' \<noteq> []"
  shows "inv s'"
  using assms getUsers_cong [of s' s]
  by (auto simp add: inv_def split: option.splits)

lemma inv_cleared:
  assumes "inv s" and "storedUsers s' = storedUsers s" and "currentMessages s' = []"
    and "currentUser s' = currentUser s \<or> currentUser s' = None"
    and "currentLoadedSessionId s' = None" and "\<not> metaCycle s'"
  shows "inv s'"
  using assms by (intro inv_fields [of s s']) (simp_all add: hasParts_def)

lemma inv_cycle: "inv s \<Longrightarrow> metaCycle s \<Longrightarrow> \<exists>cu. currentUser s = Some cu \<and> currentMessages s \<noteq> []"
  by (auto simp add: inv_def)

lemma save_preserves:
  assumes i: "inv s" and f: "freshClock clk s" and nc: "\<not> metaCycle s"
  shows "\<exists>s1. saveChatSession clk s = Done s1 \<and> inv s1 \<and>
           currentUser s1 = currentUser s \<and> currentMessages s1 = currentMessages s \<and>
           currentLoadedSessionId s1 = currentLoadedSessionId s \<and> \<not> metaCycle s1"
proof (cases "currentUser s")
  case None
  then show ?thesis
    using i nc by (simp add: saveChatSession_guest)
next
  case (Some cu)
  show ?thesis
  proof (cases "currentMessages s")
    case Nil
    then show ?thesis
      using i nc by (simp add: saveChatSession_nothing)
  next
    case (Cons m ms)
    from i Some obtain k where k: "findIndex (\<lambda>u. username u = username cu) (getUsers s) = Some k"
      using findIndex_None_iff [of "\<lambda>u. username u = username cu" "getUsers s"]
      by (auto simp add: inv_def)
    from i Cons obtain t ts where t: "parts m = t # ts"
      by (cases "parts m") (auto simp add: inv_def hasParts_def)
    let ?old = "chatHistory (getUsers s ! k)"
    let ?keep = "filter (\<lambda>x. Some (session_id x) \<noteq> currentLoadedSessionId s) ?old"
    let ?p = "(getUsers s ! k)\<lparr>chatHistory := builtSession clk s # ?keep\<rparr>"
    let ?s1 = "setItem_users ((getUsers s)[k := ?p]) s"
    have s1: "saveChatSession clk s = Done ?s1"
      by (rule saveChatSession_Done [OF Some k Cons t nc])
    have kl: "k < length (getUsers s)" and un: "username (getUsers s ! k) = username cu"
      using k by (simp_all add: findIndex_Some_iff)
    have pk: "profileOk (getUsers s ! k)"
      using i kl by (simp add: inv_def storeOk_nth)
    have g: "getChatSessions s = ?old"
      by (rule getChatSessions_findIndex [OF Some k])
    have bid: "session_id (builtSession clk s) \<noteq> 0"
      using i f by (auto simp add: builtSession_def sessionIdOr_def inv_def freshClock_def
          split: option.splits)
    have bok: "sessionOk (builtSession clk s)"
      using bid i Cons by (simp add: sessionOk_def builtSession_def inv_def)
    have bnew: "session_id (builtSession clk s) \<notin> session_id ` set ?keep"
    proof (cases "currentLoadedSessionId s")
      case None
      then show ?thesis
        using f g by (auto simp add: builtSession_def sessionIdOr_def freshClock_def)
    next
      case (Some j)
      with i have "j \<noteq> 0"
        by (simp add: inv_def)
      with Some show ?thesis
        by (auto simp add: builtSession_def sessionIdOr_def)
    qed
    have "profileOk ?p"
      using pk bok bnew
      by (auto simp add: profileOk_def list_all_iff distinct_map_filter')
    then have so: "storeOk ((getUsers s)[k := ?p])"
      using i unfolding storeOk_def inv_def by (simp add: list_all_update)
    have ex: "list_ex (\<lambda>u. username u = username cu) ((getUsers s)[k := ?p])"
      using findIndex_update [OF k, of ?p] un
        findIndex_None_iff [of "\<lambda>u. username u = username cu" "(getUsers s)[k := ?p]"]
      by auto
    have "inv ?s1"
      using i so ex Some nc
      by (simp add: inv_def getUsers_setItem setItem_fields)
    then show ?thesis
      using s1 nc by (simp add: setItem_fields)
  qed
qed

text \<open>
  The two outcomes of \<open>saveChatSession\<close>: it runs to its end, or the conversation holds a
  cycle and it throws, with the state as it was.
\<close>

lemma save_outcome:
  assumes i: "inv s" and f: "freshClock clk s"
  shows "(\<exists>s1. saveChatSession clk s = Done s1 \<and> inv s1 \<and>
            currentUser s1 = currentUser s \<and> currentMessages s1 = currentMessages s \<and>
            currentLoadedSessionId s1 = currentLoadedSessionId s \<and> \<not> metaCycle s1) \<or>
         (saveChatSession clk s = Threw TypeError s \<and> metaCycle s)"
proof (cases "metaCycle s")
  case False
  from save_preserves [OF i f False] show ?thesis
    by blast
next
  case True
  from inv_cycle [OF i True] obtain cu where "currentUser s = Some cu" "currentMessages s \<noteq> []"
    by auto
  from saveChatSession_Threw [OF this(1) inv_user_stored [OF i this(1)] this(2) True]
  show ?thesis
    using True by simp
qed

lemma newChat_preserves:
  assumes "inv s" and "freshClock clk s"
  shows "(\<exists>s'. newChat clk s = Done s' \<and> inv s') \<or>
         (newChat clk s = Threw TypeError s \<and> metaCycle s)"
proof -
  from save_outcome [OF assms]
  consider s1 where "saveChatSession clk s = Done s1" "inv s1"
    | "saveChatSession clk s = Threw TypeError s" "metaCycle s"
    by blast
  then show ?thesis
  proof cases
    case 1
    let ?s' = "initializeChat []
      (emptyMessagesEl
         (s1\<lparr>currentMessages := [], currentLoadedSessionId := None,
             historyShared := False, metaCycle := False\<rparr>))"
    have "inv ?s'"
      by (rule inv_cleared [OF 1(2)]) (simp_all add: initializeChat_def emptyMessagesEl_fields)
    then show ?thesis
      by (simp add: newChat_Done [OF 1(1)])
  next
    case 2
    then show ?thesis
      by (simp add: saving_handlers_Threw)
  qed
qed

lemma logout_preserves:
  assumes "inv s" and "freshClock clk s"
  shows "(\<exists>s'. logout clk s = Done s' \<and> inv s') \<or>
         (logout clk s = Threw TypeError s \<and> metaCycle s)"
proof -
  from save_outcome [OF assms]
  consider s1 where "saveChatSession clk s = Done s1" "inv s1"
    | "saveChatSession clk s = Threw TypeError s" "metaCycle s"
    by blast
  then show ?thesis
  proof cases
    case 1
    have "inv (updateUIForLogout (s1\<lparr>sessionUser := None\<rparr>))"
      by (rule inv_cleared [OF 1(2)])
        (simp_all add: updateUIForLogout_def initializeChat_def emptyMessagesEl_fields)
    then show ?thesis
      by (simp add: logout_Done [OF 1(1)])
  next
    case 2
    then show ?thesis
      by (simp add: saving_handlers_Threw)
  qed
qed

lemma loadChat_preserves:
  assumes i: "inv s" and f: "freshClock clk s" and x: "x \<in> set (getChatSessions s)"
  shows "(\<exists>s'. loadChat clk x s = Done s' \<and> inv s') \<or>
         (loadChat clk x s = Threw TypeError s \<and> metaCycle s)"
proof -
  from getChatSessions_ok [OF i] x have xo: "sessionOk x"
    by (simp add: list_all_iff)
  then have hx: "hasParts (history x)" and nz: "session_id x \<noteq> 0"
    by (simp_all add: sessionOk_def)
  from save_outcome [OF i f]
  consider s1 where "saveChatSession clk s = Done s1" "inv s1"
    | "saveChatSession clk s = Threw TypeError s" "metaCycle s"
    by blast
  then show ?thesis
  proof cases
    case 1
    note r = loadChat_result [OF 1(1), of x]
    have "inv (result (loadChat clk x s))"
      by (rule inv_fields [OF 1(2)]) (use r hx nz in simp_all)
    with r hx show ?thesis
      by auto
  next
    case 2
    then show ?thesis
      by (simp add: saving_handlers_Threw)
  qed
qed

lemma submit_preserves:
  assumes "inv s"
  shows "\<exists>s'. submit inputValue resp s = Done s' \<and> inv s'"
proof (cases "trim inputValue = []")
  case True
  with assms show ?thesis
    by (simp add: submit_empty)
next
  case False
  from submit_Done [OF False, of resp s]
  obtain s' tl where s': "submit inputValue resp s = Done s'"
    and m: "currentMessages s' =
      currentMessages s @
        \<lparr>role = USER, parts = [trim inputValue],
          meta = Some (avatar (getCurrentUserProfile s), username (getCurrentUserProfile s))\<rparr> #
        (if failed resp then []
         else [\<lparr>role = MODEL, parts = [concat (chunks resp)], meta = None\<rparr>])"
    and st: "storedUsers s' = storedUsers s" and cu: "currentUser s' = currentUser s"
    and ld: "currentLoadedSessionId s' = currentLoadedSessionId s"
    and mc: "metaCycle s' = (metaCycle s \<or> (historyShared s \<and> currentUser s \<noteq> None))"
    by blast
  have hp: "hasParts (currentMessages s')" and ne: "currentMessages s' \<noteq> []"
    using assms by (simp_all add: m hasParts_def inv_def)
  have "inv s'"
    using assms getUsers_cong [OF st] hp ne
    by (auto simp add: inv_def cu ld mc split: option.splits)
  with s' show ?thesis
    by simp
qed

text \<open>The steps of the submit handler, one by one.\<close>

lemma submitStart_preserves:
  assumes "inv s"
  shows "\<exists>s'. submitStart inputValue s = Done s' \<and> inv s'"
proof (cases "trim inputValue = []")
  case True
  with assms show ?thesis
    by (simp add: submitStart_empty)
next
  case False
  from submitStart_Done [OF False, of s]
  obtain s' where s': "submitStart inputValue s = Done s'"
    and m: "currentMessages s' =
      currentMessages s @
        [\<lparr>role = USER, parts = [trim inputValue],
           meta = Some (avatar (getCurrentUserProfile s), username (getCurrentUserProfile s))\<rparr>]"
    and st: "storedUsers s' = storedUsers s" and cu: "currentUser s' = currentUser s"
    and ld: "currentLoadedSessionId s' = currentLoadedSessionId s"
    and mc: "metaCycle s' = (metaCycle s \<or> (historyShared s \<and> currentUser s \<noteq> None))"
    by blast
  have hp: "hasParts (currentMessages s')" and ne: "currentMessages s' \<noteq> []"
    using assms by (simp_all add: m hasParts_def inv_def)
  have "inv s'"
    using assms getUsers_cong [OF st] hp ne
    by (auto simp add: inv_def cu ld mc split: option.splits)
  with s' show ?thesis
    by simp
qed

lemma chunkArrives_preserves: "inv s \<Longrightarrow> inv (chunkArrives k c s)"
  by (rule inv_fields [of s]) (simp_all add: chunkArrives_fields inv_def)

lemma streamFails_preserves: "inv s \<Longrightarrow> inv (streamFails k s)"
  by (rule inv_fields [of s]) (simp_all add: streamFails_fields inv_def)

lemma streamEnds_preserves: "inv s \<Longrightarrow> inv (streamEnds k s)"
  by (rule inv_fields [of s]) (simp_all add: streamEnds_fields inv_def hasParts_def)

lemma signup_preserves:
  assumes "inv s"
  shows "inv (signup usernameInput passwordInput selectedAvatar s)"
proof (cases "list_ex (\<lambda>u. username u = trim usernameInput) (getUsers s)")
  case True
  with assms show ?thesis
    by (simp add: signup_taken inv_def getUsers_updates split: option.splits)
next
  case False
  have "str ''User'' \<noteq> []"
    by (simp add: str_def)
  moreover have "getUsers (signup usernameInput passwordInput selectedAvatar s) =
      getUsers s @
        [\<lparr>username = (if trim usernameInput = [] then str ''User'' else trim usernameInput),
          avatar = (case selectedAvatar of
                      None \<Rightarrow> DEFAULT_AVATAR
                    | Some a \<Rightarrow> if a = [] then DEFAULT_AVATAR else a),
          password = Some passwordInput, chatHistory = []\<rparr>]"
    unfolding signup_new [OF False] by (simp add: getUsers_def)
  ultimately show ?thesis
    using assms signup_new [OF False, of passwordInput selectedAvatar]
    by (auto simp add: inv_def storeOk_def profileOk_def split: option.splits)
qed

lemma login_preserves:
  assumes "inv s"
  shows "inv (login name pw s)"
proof (cases "find (\<lambda>u. username u = name \<and> password u = Some pw) (getUsers s)")
  case None
  with assms show ?thesis
    by (simp add: login_def inv_def getUsers_updates split: option.splits)
next
  case (Some user)
  then have "user \<in> set (getUsers s)"
    by (auto simp add: find_Some_iff)
  then have "list_ex (\<lambda>u. username u = username user) (getUsers s)"
    by (auto simp add: list_ex_iff)
  with assms Some show ?thesis
    by (simp add: login_def inv_def getUsers_updates initializeChat_def updateUIForLogin_def
        emptyMessagesEl_fields hasParts_def split: option.splits)
qed

lemma deleteChatSession_preserves:
  assumes i: "inv s"
  shows "\<exists>s'. deleteChatSession pf j s = Done s' \<and> inv s'"
proof (cases "currentUser s")
  case None
  with i show ?thesis
    by (simp add: deleteChatSession_def)
next
  case (Some cu)
  with i obtain k where k: "findIndex (\<lambda>u. username u = username cu) (getUsers s) = Some k"
    using findIndex_None_iff [of "\<lambda>u. username u = username cu" "getUsers s"]
    by (auto simp add: inv_def)
  let ?p = "(getUsers s ! k)
      \<lparr>chatHistory := filter (\<lambda>x. session_id x \<noteq> j) (chatHistory (getUsers s ! k))\<rparr>"
  let ?s' = "setItem_users ((getUsers s)[k := ?p]) s"
  have kl: "k < length (getUsers s)" and un: "username (getUsers s ! k) = username cu"
    using k by (simp_all add: findIndex_Some_iff)
  have "profileOk (getUsers s ! k)"
    using i kl by (simp add: inv_def storeOk_nth)
  then have "profileOk ?p"
    by (auto simp add: profileOk_def list_all_iff distinct_map_filter')
  then have so: "storeOk ((getUsers s)[k := ?p])"
    using i unfolding storeOk_def inv_def by (simp add: list_all_update)
  have ex: "list_ex (\<lambda>u. username u = username cu) ((getUsers s)[k := ?p])"
    using findIndex_update [OF k, of ?p] un
      findIndex_None_iff [of "\<lambda>u. username u = username cu" "(getUsers s)[k := ?p]"]
    by auto
  have i': "inv ?s'"
    using i so ex Some by (simp add: inv_def getUsers_setItem setItem_fields)
  have "list_all (\<lambda>x. hasParts (history x)) (getChatSessions ?s')"
    using getChatSessions_ok [OF i'] by (simp add: list_all_iff sessionOk_def)
  from filterSessions_Inr [OF this, of pf "[]"]
  obtain r where "renderChatHistoryList pf [] ?s' = Inr r"
    by (auto simp add: renderChatHistoryList_def setItem_fields Some)
  then have "deleteChatSession pf j s = Done ?s'"
    using Some k by (simp add: deleteChatSession_def saveUsers_def Let_def)
  with i' show ?thesis
    by simp
qed

lemma main_establishes:
  assumes so: "storeOk (getUsers (initialState users marker))"
  shows "\<exists>s. main users marker = Done s \<and> inv s"
proof -
  let ?s0 = "initialState users marker"
  have i0: "initializeChat [] ?s0 = ?s0"
    by (simp add: initializeChat_def initialState_def)
  have inv0: "inv ?s0"
    using so by (simp add: inv_def hasParts_def initialState_def)
  have m: "main users marker = checkCurrentUserSession ?s0"
    by (simp add: main_def i0)
  show ?thesis
  proof (cases "\<exists>name p. sessionUser ?s0 = Some name \<and> name \<noteq> [] \<and>
                  find (\<lambda>u. username u = name) (getUsers ?s0) = Some p")
    case False
    then have "checkCurrentUserSession ?s0 = Done ?s0"
      by (auto simp add: checkCurrentUserSession_def split: option.splits)
    with inv0 m show ?thesis
      by simp
  next
    case True
    then obtain name p where n: "sessionUser ?s0 = Some name" "name \<noteq> []"
      and f: "find (\<lambda>u. username u = name) (getUsers ?s0) = Some p"
      by auto
    from f have pin: "p \<in> set (getUsers ?s0)"
      by (auto simp add: find_Some_iff)
    then have ex: "list_ex (\<lambda>u. username u = username p) (getUsers ?s0)"
      by (auto simp add: list_ex_iff)
    from pin so have po: "profileOk p"
      by (simp add: storeOk_def list_all_iff)
    show ?thesis
    proof (cases "chatHistory p")
      case Nil
      have "inv (updateUIForLogin p ?s0)"
        using inv0 ex
        by (simp add: inv_def updateUIForLogin_def getUsers_updates split: option.splits)
      then show ?thesis
        using m checkCurrentUserSession_empty_list [OF n f Nil] by simp
    next
      case (Cons latest rest)
      with po have lo: "sessionOk latest"
        by (simp add: profileOk_def)
      let ?s2 = "initializeChat (history latest)
          ((updateUIForLogin p ?s0)\<lparr>currentMessages := history latest,
             currentLoadedSessionId := Some (session_id latest),
             historyShared := True, metaCycle := False\<rparr>)"
      from lo have "hasParts (history latest)"
        by (simp add: sessionOk_def)
      from renderMessagesTo_Done [OF this, of ?s2]
      obtain ps where r: "renderMessagesTo (history latest) ?s2 =
          Done ((emptyMessagesEl ?s2)\<lparr>messagesEl := ps\<rparr>)" ..
      have "inv ((emptyMessagesEl ?s2)\<lparr>messagesEl := ps\<rparr>)"
        using inv0 ex lo
        by (simp add: inv_def updateUIForLogin_def initializeChat_def getUsers_updates
            emptyMessagesEl_fields sessionOk_def split: option.splits)
      then show ?thesis
        using m checkCurrentUserSession_latest [OF n f Cons] r by simp
    qed
  qed
qed

lemma handler_outcome:
  assumes "inv s" and "enabled e s"
  shows "(\<exists>s'. handler e s = Done s' \<and> inv s') \<or>
         (handler e s = Threw TypeError s \<and> metaCycle s \<and> saveClock e \<noteq> None)"
proof (cases e)
  case (Signup n pw av)
  with assms show ?thesis by (simp add: signup_preserves)
next
  case (Login n pw)
  with assms show ?thesis by (simp add: login_preserves)
next
  case (Logout clk)
  with assms logout_preserves [of s clk] show ?thesis by simp
next
  case (NewChat clk)
  with assms newChat_preserves [of s clk] show ?thesis by simp
next
  case (LoadChat clk x)
  with assms loadChat_preserves [of s clk x] show ?thesis by simp
next
  case (Submit i)
  with assms show ?thesis by (simp add: submitStart_preserves)
next
  case (Chunk k c)
  with assms show ?thesis by (simp add: chunkArrives_preserves)
next
  case (StreamEnd k)
  with assms show ?thesis by (simp add: streamEnds_preserves)
next
  case (StreamFail k)
  with assms show ?thesis by (simp add: streamFails_preserves)
next
  case (Delete pf j)
  with assms show ?thesis by (simp add: deleteChatSession_preserves)
qed

lemma handler_preserves_inv:
  assumes "inv s" and "enabled e s"
  shows "inv (result (handler e s))"
  using handler_outcome [OF assms] assms(1) by auto

lemma reachable_inv:
  assumes "reachable s"
  shows "inv s"
  using assms
proof (induction rule: reachable.induct)
  case (start users marker s)
  with main_establishes [OF start(1)] show ?case
    by auto
next
  case (step s e)
  then show ?case
    by (simp add: handler_preserves_inv)
qed

text \<open>
  The submit handler, run without interruption while no other request is pending, is a
  sequence of events of the page: the submit, the chunks, and the end or the failure of
  the stream.
\<close>

lemma chunkArrives_pending_length:
  "length (pending (chunkArrives k c s)) = length (pending s)"
  by (simp add: chunkArrives_def onContainer_def Let_def split: option.splits)

lemma reachable_streamChunks:
  "reachable s \<Longrightarrow> k < length (pending s) \<Longrightarrow>
   reachable (streamChunks k cs s) \<and>
   length (pending (streamChunks k cs s)) = length (pending s)"
proof (induction cs arbitrary: s)
  case Nil
  then show ?case
    by simp
next
  case (Cons c cs)
  from reachable.step [OF Cons.prems(1), of "Chunk k c"] Cons.prems(2)
  have "reachable (chunkArrives k c s)"
    by simp
  from Cons.IH [OF this] Cons.prems(2) show ?case
    by (simp add: chunkArrives_pending_length)
qed

lemma reachable_submit:
  assumes r: "reachable s" and p: "pending s = []"
  shows "reachable (result (submit inputValue resp s))"
proof (cases "trim inputValue = []")
  case True
  with r show ?thesis
    by (simp add: submit_empty)
next
  case False
  from submitStart_Done [OF False, of s] p
  obtain s1 where s1: "submitStart inputValue s = Done s1" and p1: "length (pending s1) = 1"
    by auto
  from reachable.step [OF r, of "Submit inputValue"] p s1 have r1: "reachable s1"
    by simp
  define s2 where "s2 = streamChunks 0 (chunks resp) s1"
  from reachable_streamChunks [OF r1, of 0 "chunks resp"] p1
  have r2: "reachable s2" and p2: "0 < length (pending s2)"
    by (simp_all add: s2_def)
  from reachable.step [OF r2, of "StreamFail 0"] reachable.step [OF r2, of "StreamEnd 0"] p2
  have "reachable (streamFails 0 s2)" "reachable (streamEnds 0 s2)"
    by simp_all
  then show ?thesis
    using False s1 by (simp add: submit_def p Let_def s2_def)
qed

text \<open>
  In a reachable state a handler throws only in \<open>saveChatSession\<close>, on a conversation that
  holds a cycle; and there each of the three handlers that save does throw.
\<close>

lemma reachable_Done:
  assumes "reachable s" and "enabled e s" and "\<not> metaCycle s"
  shows "\<exists>s'. handler e s = Done s' \<and> reachable s'"
proof -
  from handler_outcome [OF reachable_inv [OF assms(1)] assms(2)] assms(3)
  obtain s' where s': "handler e s = Done s'"
    by auto
  from reachable.step [OF assms(1,2)] s' show ?thesis
    by simp
qed

lemma cycle_blocks_saving:
  assumes i: "inv s" and c: "metaCycle s" and e: "saveClock e = Some clk"
  shows "handler e s = Threw TypeError s"
proof -
  from inv_cycle [OF i c] obtain cu where "currentUser s = Some cu" "currentMessages s \<noteq> []"
    by auto
  from saveChatSession_Threw [OF this(1) inv_user_stored [OF i this(1)] this(2) c]
  have "saveChatSession clk s = Threw TypeError s" .
  then show ?thesis
    using e by (cases e) (simp_all add: saving_handlers_Threw)
qed

section \<open>Sequences of handlers\<close>

text \<open>
  What a handler that saves leaves in the store is what its \<open>saveChatSession\<close> leaves.
\<close>

lemma saving_store:
  assumes "saveClock e = Some clk"
  shows "storedUsers (result (handler e s)) = storedUsers (result (saveChatSession clk s))"
proof (cases "saveChatSession clk s")
  case (Done s1)
  from loadChat_result [OF Done]
  have "storedUsers (result (loadChat clk x s)) = storedUsers s1" for x
    by simp
  with assms Done show ?thesis
    by (cases e)
      (simp_all add: newChat_Done logout_Done updateUIForLogout_def initializeChat_def
        emptyMessagesEl_fields)
next
  case (Threw err s')
  with assms show ?thesis
    by (cases e) (simp_all add: saving_handlers_Threw)
qed

lemma saving_sessions:
  "saveClock e = Some clk \<Longrightarrow>
   sessionsOf name (result (handler e s)) = sessionsOf name (result (saveChatSession clk s))"
  by (rule sessionsOf_cong) (rule saving_store)

lemma count_distinct:
  "distinct (map f xs) \<Longrightarrow> x \<in> set xs \<Longrightarrow> length (filter (\<lambda>y. f y = f x) xs) = 1"
proof (induction xs)
  case Nil
  then show ?case by simp
next
  case (Cons a xs)
  show ?case
  proof (cases "f a = f x")
    case True
    with Cons.prems have "f x \<notin> f ` set xs"
      by auto
    then have "filter (\<lambda>y. f y = f x) xs = []"
      by (fastforce simp add: filter_empty_conv image_iff)
    with True show ?thesis
      by simp
  next
    case False
    with Cons show ?thesis
      by auto
  qed
qed

lemma length_filter_other:
  "length (filter (\<lambda>y. f y \<noteq> a) xs) + length (filter (\<lambda>y. f y = a) xs) = length xs"
  using sum_length_filter_compl [of "\<lambda>y. f y \<noteq> a" xs] by simp

text \<open>
  Saving the same loaded conversation twice: the second save replaces what the first
  one stored.
\<close>

lemma save_twice_sessions:
  assumes cu: "currentUser s = Some cu"
    and ex: "list_ex (\<lambda>u. username u = username cu) (getUsers s)"
    and ms: "currentMessages s = m # ms"
    and pt: "parts m \<noteq> []"
    and ld: "currentLoadedSessionId s = Some i"
    and nz: "i \<noteq> 0"
    and nc: "\<not> metaCycle s"
  shows "\<exists>s1 s2. saveChatSession c1 s = Done s1 \<and> saveChatSession c2 s1 = Done s2 \<and>
           length (getChatSessions s2) = length (getChatSessions s1) \<and>
           map session_id (getChatSessions s2) = map session_id (getChatSessions s1) \<and>
           map history (getChatSessions s2) = map history (getChatSessions s1) \<and>
           session_id (hd (getChatSessions s1)) = i \<and>
           session_id (hd (getChatSessions s2)) = i"
proof -
  let ?n = "username cu"
  let ?keep = "filter (\<lambda>x. Some (session_id x) \<noteq> Some i) (sessionsOf ?n s)"
  from saveChatSession_sessions [OF cu ex ms pt nc, of c1]
  obtain s1 where s1: "saveChatSession c1 s = Done s1"
    and h1: "sessionsOf ?n s1 = builtSession c1 s # ?keep"
    and n1: "map username (getUsers s1) = map username (getUsers s)"
    and cu1: "currentUser s1 = Some cu" and ms1: "currentMessages s1 = m # ms"
    and ld1: "currentLoadedSessionId s1 = Some i" and nc1: "\<not> metaCycle s1"
    by (auto simp add: cu ms ld nc)
  have ex1: "list_ex (\<lambda>u. username u = ?n) (getUsers s1)"
    using ex by (simp add: list_ex_username n1)
  from saveChatSession_sessions [OF cu1 ex1 ms1 pt nc1, of c2]
  obtain s2 where s2: "saveChatSession c2 s1 = Done s2"
    and h2: "sessionsOf ?n s2 =
               builtSession c2 s1 # filter (\<lambda>x. Some (session_id x) \<noteq> Some i) (sessionsOf ?n s1)"
    and cu2: "currentUser s2 = Some cu"
    by (auto simp add: cu1 ld1)
  have b1: "session_id (builtSession c1 s) = i" "history (builtSession c1 s) = m # ms"
    using nz by (simp_all add: builtSession_def ld sessionIdOr_def ms)
  have b2: "session_id (builtSession c2 s1) = i" "history (builtSession c2 s1) = m # ms"
    using nz by (simp_all add: builtSession_def ld1 sessionIdOr_def ms1)
  have h2': "sessionsOf ?n s2 = builtSession c2 s1 # ?keep"
    by (simp add: h2 h1 b1)
  show ?thesis
    using s1 s2
    by (simp add: getChatSessions_sessionsOf [OF cu1] getChatSessions_sessionsOf [OF cu2] h1 h2' b1 b2)
qed

text \<open>
  Loading a session of the list and saving it: the load saves the conversation it
  replaces, and the save that follows puts the rebuilt session in the place of every
  entry with its id.
\<close>

lemma load_then_save_sessions:
  assumes i: "inv s" and cu: "currentUser s = Some cu"
    and x: "x \<in> set (getChatSessions s)"
    and nc: "\<not> metaCycle s"
  shows "\<exists>s1 s2. loadChat c1 x s = Done s1 \<and> saveChatSession c2 s1 = Done s2 \<and>
           currentUser s1 = Some cu \<and> currentMessages s1 = history x \<and>
           currentLoadedSessionId s1 = Some (session_id x) \<and> \<not> metaCycle s1 \<and>
           sessionsOf (username cu) s1 =
             (if currentMessages s = [] then sessionsOf (username cu) s
              else builtSession c1 s #
                     filter (\<lambda>y. Some (session_id y) \<noteq> currentLoadedSessionId s)
                       (sessionsOf (username cu) s)) \<and>
           sessionsOf (username cu) s2 =
             builtSession c2 s1 #
               filter (\<lambda>y. session_id y \<noteq> session_id x) (sessionsOf (username cu) s1) \<and>
           session_id (builtSession c2 s1) = session_id x \<and>
           history (builtSession c2 s1) = history x \<and>
           session_id x \<in> session_id ` set (sessionsOf (username cu) s1) \<and>
           length (filter (\<lambda>y. session_id y = session_id x) (sessionsOf (username cu) s1)) =
             (if currentMessages s \<noteq> [] \<and> currentLoadedSessionId s = None \<and>
                 Date_now c1 = session_id x
              then 2 else 1)"
proof -
  let ?n = "username cu"
  let ?L = "sessionsOf ?n s"
  have g: "getChatSessions s = ?L"
    by (rule getChatSessions_sessionsOf [OF cu])
  have ex: "list_ex (\<lambda>u. username u = ?n) (getUsers s)"
    by (rule inv_user_stored [OF i cu])
  have d: "distinct (map session_id ?L)"
    using inv_sessions_distinct [OF i] by (simp add: g)
  from getChatSessions_ok [OF i] x have xo: "sessionOk x"
    by (simp add: list_all_iff)
  then have nz: "session_id x \<noteq> 0" and px: "hasParts (history x)" and hne: "history x \<noteq> []"
    by (simp_all add: sessionOk_def)
  from hne obtain m ms where hx: "history x = m # ms"
    by (cases "history x") auto
  have pm: "parts m \<noteq> []"
    using px hx by (simp add: hasParts_def)
  have xL: "x \<in> set ?L"
    using x by (simp add: g)
  have one: "length (filter (\<lambda>y. session_id y = session_id x) ?L) = 1"
    by (rule count_distinct [OF d xL])
  from saveChatSession_cases [OF cu ex inv_hasParts [OF i] nc, of c1]
  obtain s0 where s0: "saveChatSession c1 s = Done s0"
    and h0: "sessionsOf ?n s0 =
               (if currentMessages s = [] then ?L
                else builtSession c1 s #
                       filter (\<lambda>y. Some (session_id y) \<noteq> currentLoadedSessionId s) ?L)"
    and n0: "map username (getUsers s0) = map username (getUsers s)"
    and cu0: "currentUser s0 = Some cu"
    by auto
  define s1 where "s1 = result (loadChat c1 x s)"
  note r = loadChat_result [OF s0, of x, folded s1_def]
  have l: "loadChat c1 x s = Done s1"
    using r px by simp
  have cu1: "currentUser s1 = Some cu" and m1: "currentMessages s1 = m # ms"
    and l1: "currentLoadedSessionId s1 = Some (session_id x)"
    and st1: "storedUsers s1 = storedUsers s0" and nc1: "\<not> metaCycle s1"
    using r by (simp_all add: cu0 hx)
  have h1: "sessionsOf ?n s1 = sessionsOf ?n s0"
    by (rule sessionsOf_cong [OF st1])
  have ex1: "list_ex (\<lambda>u. username u = ?n) (getUsers s1)"
    using ex by (simp add: list_ex_username getUsers_cong [OF st1] n0)
  from saveChatSession_sessions [OF cu1 ex1 m1 pm nc1, of c2]
  obtain s2 where s2: "saveChatSession c2 s1 = Done s2"
    and h2: "sessionsOf ?n s2 =
               builtSession c2 s1 # filter (\<lambda>y. session_id y \<noteq> session_id x) (sessionsOf ?n s1)"
    by (auto simp add: l1 h1 cu1)
  have b: "session_id (builtSession c2 s1) = session_id x" "history (builtSession c2 s1) = history x"
    using nz by (simp_all add: builtSession_def l1 m1 sessionIdOr_def hx)
  have cnt: "length (filter (\<lambda>y. session_id y = session_id x) (sessionsOf ?n s0)) =
             (if currentMessages s \<noteq> [] \<and> currentLoadedSessionId s = None \<and>
                 Date_now c1 = session_id x
              then 2 else 1)"
  proof (cases "currentMessages s = []")
    case True
    then show ?thesis
      by (simp add: h0 one)
  next
    case False
    show ?thesis
    proof (cases "currentLoadedSessionId s")
      case None
      then have "session_id (builtSession c1 s) = Date_now c1"
        by (simp add: builtSession_id_new)
      with False None show ?thesis
        by (simp add: h0 one)
    next
      case (Some j)
      with i have j0: "j \<noteq> 0"
        by (simp add: inv_def)
      then have bj: "session_id (builtSession c1 s) = j"
        using Some by (simp add: builtSession_id_loaded)
      show ?thesis
      proof (cases "j = session_id x")
        case True
        have "filter (\<lambda>y. session_id y = session_id x)
                (filter (\<lambda>y. session_id y \<noteq> session_id x) ?L) = []"
          by (simp add: filter_empty_conv)
        with True False Some bj show ?thesis
          by (simp add: h0)
      next
        case neq: False
        have "filter (\<lambda>y. session_id y = session_id x) (filter (\<lambda>y. session_id y \<noteq> j) ?L) =
              filter (\<lambda>y. session_id y = session_id x) ?L"
          using neq by (auto intro: filter_cong)
        with neq False Some bj show ?thesis
          by (simp add: h0 one)
      qed
    qed
  qed
  have "filter (\<lambda>y. session_id y = session_id x) (sessionsOf ?n s0) \<noteq> []"
    using cnt by (auto split: if_splits)
  then obtain y where "y \<in> set (sessionsOf ?n s0)" "session_id y = session_id x"
    by (auto simp add: filter_empty_conv)
  then have mem: "session_id x \<in> session_id ` set (sessionsOf ?n s0)"
    by (metis imageI)
  note l' = l
  have c1': "currentMessages s1 = history x"
    by (simp add: m1 hx)
  have h0': "sessionsOf ?n s1 =
               (if currentMessages s = [] then ?L
                else builtSession c1 s #
                       filter (\<lambda>y. Some (session_id y) \<noteq> currentLoadedSessionId s) ?L)"
    by (simp only: h1 h0)
  have mem': "session_id x \<in> session_id ` set (sessionsOf ?n s1)"
    by (simp only: h1 mem)
  have cnt': "length (filter (\<lambda>y. session_id y = session_id x) (sessionsOf ?n s1)) =
             (if currentMessages s \<noteq> [] \<and> currentLoadedSessionId s = None \<and>
                 Date_now c1 = session_id x
              then 2 else 1)"
    by (simp only: h1 cnt)
  show ?thesis
    by (rule exI [of _ s1], rule exI [of _ s2])
      (intro conjI l' s2 cu1 c1' l1 nc1 h0' h2 b mem' cnt')
qed

text \<open>
  In a state whose conversation holds no cycle, each of the three handlers saves the
  conversation before it replaces it.
\<close>

lemma save_then_switch:
  assumes cu: "currentUser s = Some cu"
    and ex: "list_ex (\<lambda>u. username u = username cu) (getUsers s)"
    and ms: "currentMessages s = m # ms"
    and pt: "parts m \<noteq> []"
    and nc: "\<not> metaCycle s"
  shows "(\<exists>s' rest. newChat clk s = Done s' \<and>
            sessionsOf (username cu) s' = builtSession clk s # rest \<and>
            history (builtSession clk s) = currentMessages s \<and>
            currentMessages s' = [] \<and> currentLoadedSessionId s' = None) \<and>
         (\<exists>rest. sessionsOf (username cu) (result (loadChat clk x s)) = builtSession clk s # rest \<and>
            currentMessages (result (loadChat clk x s)) = history x \<and>
            currentLoadedSessionId (result (loadChat clk x s)) = Some (session_id x)) \<and>
         (\<exists>s' rest. logout clk s = Done s' \<and>
            sessionsOf (username cu) s' = builtSession clk s # rest \<and>
            currentUser s' = None \<and> sessionUser s' = None \<and>
            currentMessages s' = [] \<and> currentLoadedSessionId s' = None)"
proof -
  from saveChatSession_sessions [OF cu ex ms pt nc, of clk]
  obtain s1 rest where s1: "saveChatSession clk s = Done s1"
    and h1: "sessionsOf (username cu) s1 = builtSession clk s # rest"
    by auto
  have b: "history (builtSession clk s) = currentMessages s"
    by (simp add: builtSession_def)
  have "sessionsOf (username cu)
          (initializeChat []
             (emptyMessagesEl
                (s1\<lparr>currentMessages := [], currentLoadedSessionId := None,
                    historyShared := False, metaCycle := False\<rparr>))) =
        builtSession clk s # rest"
    using h1 by (simp add: sessionsOf_def getUsers_def initializeChat_def emptyMessagesEl_fields)
  then have n: "\<exists>s' rest. newChat clk s = Done s' \<and>
            sessionsOf (username cu) s' = builtSession clk s # rest \<and>
            history (builtSession clk s) = currentMessages s \<and>
            currentMessages s' = [] \<and> currentLoadedSessionId s' = None"
    using b by (simp add: newChat_Done [OF s1] initializeChat_def emptyMessagesEl_fields)
  from loadChat_result [OF s1, of x]
  have "sessionsOf (username cu) (result (loadChat clk x s)) = sessionsOf (username cu) s1"
    by (intro sessionsOf_cong) simp
  with loadChat_result [OF s1, of x]
  have l: "\<exists>rest. sessionsOf (username cu) (result (loadChat clk x s)) = builtSession clk s # rest \<and>
            currentMessages (result (loadChat clk x s)) = history x \<and>
            currentLoadedSessionId (result (loadChat clk x s)) = Some (session_id x)"
    using h1 by simp
  have "sessionsOf (username cu) (updateUIForLogout (s1\<lparr>sessionUser := None\<rparr>)) =
        builtSession clk s # rest"
    using h1
    by (simp add: sessionsOf_def getUsers_def updateUIForLogout_def initializeChat_def
        emptyMessagesEl_fields)
  then have o: "\<exists>s' rest. logout clk s = Done s' \<and>
            sessionsOf (username cu) s' = builtSession clk s # rest \<and>
            currentUser s' = None \<and> sessionUser s' = None \<and>
            currentMessages s' = [] \<and> currentLoadedSessionId s' = None"
    by (simp add: logout_Done [OF s1] updateUIForLogout_def initializeChat_def
        emptyMessagesEl_fields)
  from n l o show ?thesis
    by blast
qed

text \<open>
  The scenario of the specification, by the events of the page: signup, a message and its
  reply, the new chat button (which saves), a second message, and the new chat button or
  the logout button (which save).
\<close>

lemma scenario_states:
  fixes pw av c1 c2 r
  defines "u \<equiv> \<lparr>username = str ''alice'',
                  avatar = (case av of None \<Rightarrow> DEFAULT_AVATAR
                            | Some a \<Rightarrow> if a = [] then DEFAULT_AVATAR else a),
                  password = Some pw, chatHistory = []\<rparr>"
  shows "\<exists>s1 s2 s3 s4 s5 s6.
           signup (str ''alice'') pw av (initialState None None) = s1 \<and>
           submit (str ''hi'') \<lparr>chunks = [str ''hel'', str ''lo''], failed = False\<rparr> s1 = Done s2 \<and>
           newChat c1 s2 = Done s3 \<and>
           submit (str ''bye'') r s3 = Done s4 \<and>
           newChat c2 s4 = Done s5 \<and>
           logout c2 s4 = Done s6 \<and>
           getUsers s1 = [u] \<and>
           map (\<lambda>m. (role m, parts m)) (currentMessages s2) =
             [(USER, [str ''hi'']), (MODEL, [str ''hello''])] \<and>
           map (\<lambda>x. (session_id x, title x)) (getChatSessions s3) =
             [(Date_now c1, str ''hi...'')] \<and>
           map (\<lambda>x. map (\<lambda>m. (role m, parts m)) (history x)) (getChatSessions s3) =
             [[(USER, [str ''hi'']), (MODEL, [str ''hello''])]] \<and>
           currentMessages s3 = [] \<and>
           map (\<lambda>x. (session_id x, title x)) (getChatSessions s5) =
             [(Date_now c2, str ''bye...''), (Date_now c1, str ''hi...'')] \<and>
           map (\<lambda>x. (session_id x, title x)) (sessionsOf (str ''alice'') s6) =
             [(Date_now c2, str ''bye...''), (Date_now c1, str ''hi...'')]"
proof -
  define s0 where "s0 = initialState None None"
  define s1 where "s1 = signup (str ''alice'') pw av s0"
  have un: "username u = str ''alice''"
    by (simp add: u_def)
  have "\<not> list_ex (\<lambda>u. username u = trim (str ''alice'')) (getUsers s0)"
    by (simp add: s0_def initialState_def getUsers_def)
  from signup_new [OF this, of pw av]
  have s1: "getUsers s1 = [u]" "currentUser s1 = Some u" "currentMessages s1 = []"
    "currentLoadedSessionId s1 = None" "\<not> metaCycle s1" "\<not> historyShared s1"
    by (simp_all add: s1_def trim_literal u_def s0_def initialState_def getUsers_def)
  have "trim (str ''hi'') \<noteq> []"
    by (simp add: trim_literal)
  from submit_Done [OF this, of "\<lparr>chunks = [str ''hel'', str ''lo''], failed = False\<rparr>" s1]
  obtain s2 where s2: "submit (str ''hi'') \<lparr>chunks = [str ''hel'', str ''lo''], failed = False\<rparr> s1 = Done s2"
    and m2: "currentMessages s2 =
      [\<lparr>role = USER, parts = [str ''hi''],
         meta = Some (avatar (getCurrentUserProfile s1), username (getCurrentUserProfile s1))\<rparr>,
       \<lparr>role = MODEL, parts = [str ''hello''], meta = None\<rparr>]"
    and st2: "storedUsers s2 = storedUsers s1" and cu2: "currentUser s2 = Some u"
    and id2: "currentLoadedSessionId s2 = None" and nc2: "\<not> metaCycle s2"
    by (auto simp add: s1 trim_literal)
  have g2: "getUsers s2 = [u]"
    using getUsers_cong [OF st2] s1 by simp
  have ex2: "list_ex (\<lambda>x. username x = username u) (getUsers s2)"
    by (simp add: g2)
  from saveChatSession_sessions [OF cu2 ex2 m2 _ nc2, of c1]
  obtain s2' where s2': "saveChatSession c1 s2 = Done s2'"
    and h2': "sessionsOf (username u) s2' = [builtSession c1 s2]"
    and n2': "map username (getUsers s2') = map username (getUsers s2)"
    and cu2': "currentUser s2' = Some u"
    by (auto simp add: cu2 id2 sessionsOf_def g2 u_def)
  define s3 where "s3 = initializeChat []
     (emptyMessagesEl
        (s2'\<lparr>currentMessages := [], currentLoadedSessionId := None,
             historyShared := False, metaCycle := False\<rparr>))"
  have s3: "newChat c1 s2 = Done s3"
    by (simp add: newChat_Done [OF s2'] s3_def)
  have f3: "storedUsers s3 = storedUsers s2'" "currentUser s3 = Some u" "currentMessages s3 = []"
    "currentLoadedSessionId s3 = None" "\<not> metaCycle s3" "\<not> historyShared s3"
    by (simp_all add: s3_def initializeChat_def emptyMessagesEl_fields cu2')
  have h3: "sessionsOf (username u) s3 = [builtSession c1 s2]"
    using sessionsOf_cong [OF f3(1)] h2' by simp
  have "trim (str ''bye'') \<noteq> []"
    by (simp add: trim_literal)
  from submit_Done [OF this, of r s3]
  obtain s4 ms where s4: "submit (str ''bye'') r s3 = Done s4"
    and m4: "currentMessages s4 =
      \<lparr>role = USER, parts = [str ''bye''],
        meta = Some (avatar (getCurrentUserProfile s3), username (getCurrentUserProfile s3))\<rparr> # ms"
    and st4: "storedUsers s4 = storedUsers s3" and cu4: "currentUser s4 = Some u"
    and id4: "currentLoadedSessionId s4 = None" and nc4: "\<not> metaCycle s4"
    by (auto simp add: f3 trim_literal)
  have g4: "getUsers s4 = getUsers s2'"
    using getUsers_cong [OF st4] getUsers_cong [OF f3(1)] by simp
  have ex4: "list_ex (\<lambda>x. username x = username u) (getUsers s4)"
    by (simp add: list_ex_username g4 n2' g2)
  have h4: "sessionsOf (username u) s4 = [builtSession c1 s2]"
    using sessionsOf_cong [OF st4] h3 by simp
  from saveChatSession_sessions [OF cu4 ex4 m4 _ nc4, of c2]
  obtain s4' where s4': "saveChatSession c2 s4 = Done s4'"
    and h4': "sessionsOf (username u) s4' = [builtSession c2 s4, builtSession c1 s2]"
    and cu4': "currentUser s4' = Some u"
    by (auto simp add: cu4 id4 h4)
  define s5 where "s5 = initializeChat []
     (emptyMessagesEl
        (s4'\<lparr>currentMessages := [], currentLoadedSessionId := None,
             historyShared := False, metaCycle := False\<rparr>))"
  define s6 where "s6 = updateUIForLogout (s4'\<lparr>sessionUser := None\<rparr>)"
  have s5: "newChat c2 s4 = Done s5"
    by (simp add: newChat_Done [OF s4'] s5_def)
  have s6: "logout c2 s4 = Done s6"
    by (simp add: logout_Done [OF s4'] s6_def)
  have f5: "storedUsers s5 = storedUsers s4'" "currentUser s5 = Some u"
    by (simp_all add: s5_def initializeChat_def emptyMessagesEl_fields cu4')
  have f6: "storedUsers s6 = storedUsers s4'"
    by (simp add: s6_def updateUIForLogout_def initializeChat_def emptyMessagesEl_fields)
  have h5: "sessionsOf (username u) s5 = [builtSession c2 s4, builtSession c1 s2]"
    using sessionsOf_cong [OF f5(1)] h4' by simp
  have h6: "sessionsOf (str ''alice'') s6 = [builtSession c2 s4, builtSession c1 s2]"
    using sessionsOf_cong [OF f6] h4' by (simp add: un)
  have b1: "session_id (builtSession c1 s2) = Date_now c1" "title (builtSession c1 s2) = str ''hi...''"
    "map (\<lambda>m. (role m, parts m)) (history (builtSession c1 s2)) =
       [(USER, [str ''hi'']), (MODEL, [str ''hello''])]"
    by (simp_all add: builtSession_def id2 m2 sessionIdOr_def str_def)
  have b2: "session_id (builtSession c2 s4) = Date_now c2" "title (builtSession c2 s4) = str ''bye...''"
    by (simp_all add: builtSession_def id4 m4 sessionIdOr_def str_def)
  have "map (\<lambda>m. (role m, parts m)) (currentMessages s2) =
          [(USER, [str ''hi'']), (MODEL, [str ''hello''])]"
    by (simp add: m2)
  moreover have "map (\<lambda>x. (session_id x, title x)) (getChatSessions s3) = [(Date_now c1, str ''hi...'')]"
    by (simp add: getChatSessions_sessionsOf [OF f3(2)] h3 b1)
  moreover have "map (\<lambda>x. map (\<lambda>m. (role m, parts m)) (history x)) (getChatSessions s3) =
             [[(USER, [str ''hi'']), (MODEL, [str ''hello''])]]"
    by (simp add: getChatSessions_sessionsOf [OF f3(2)] h3 b1)
  moreover have "map (\<lambda>x. (session_id x, title x)) (getChatSessions s5) =
       [(Date_now c2, str ''bye...''), (Date_now c1, str ''hi...'')]"
    by (simp add: getChatSessions_sessionsOf [OF f5(2)] h5 b1 b2)
  moreover have "map (\<lambda>x. (session_id x, title x)) (sessionsOf (str ''alice'') s6) =
       [(Date_now c2, str ''bye...''), (Date_now c1, str ''hi...'')]"
    by (simp add: h6 b1 b2)
  ultimately show ?thesis
    using s1(1) s2 s3 s4 s5 s6 f3(3) unfolding s1_def s0_def by simp
qed

text \<open>
  A conversation that \<open>main\<close> has restored holds a cycle after the next message, and
  then no handler can save it.
\<close>

lemma restored_send:
  assumes so: "storeOk (getUsers (initialState users (Some name)))"
    and f: "find (\<lambda>u. username u = name) (getUsers (initialState users (Some name))) = Some p"
    and c: "chatHistory p = latest # rest"
    and t: "trim inputValue \<noteq> []"
  shows "\<exists>s1 s2. main users (Some name) = Done s1 \<and> submit inputValue resp s1 = Done s2 \<and>
           currentUser s1 = Some p \<and> currentMessages s1 = history latest \<and>
           currentLoadedSessionId s1 = Some (session_id latest) \<and>
           historyShared s1 \<and> \<not> metaCycle s1 \<and> pending s1 = [] \<and>
           currentUser s2 = Some p \<and> storedUsers s2 = users \<and>
           currentLoadedSessionId s2 = Some (session_id latest) \<and>
           currentMessages s2 =
             history latest @
               \<lparr>role = USER, parts = [trim inputValue], meta = Some (avatar p, username p)\<rparr> #
               (if failed resp then []
                else [\<lparr>role = MODEL, parts = [concat (chunks resp)], meta = None\<rparr>]) \<and>
           metaCycle s2 \<and> inv s1 \<and> inv s2"
proof -
  let ?s0 = "initialState users (Some name)"
  have i0: "initializeChat [] ?s0 = ?s0"
    by (simp add: initializeChat_def initialState_def)
  from f have pin: "p \<in> set (getUsers ?s0)" and pn: "username p = name"
    by (auto simp add: find_Some_iff)
  with so have po: "profileOk p"
    by (simp add: storeOk_def list_all_iff)
  then have n: "name \<noteq> []" and lo: "sessionOk latest"
    using pn c by (simp_all add: profileOk_def)
  then have hp: "hasParts (history latest)"
    by (simp add: sessionOk_def)
  have m': "sessionUser ?s0 = Some name"
    by (simp add: initialState_def)
  let ?s = "initializeChat (history latest)
          ((updateUIForLogin p ?s0)\<lparr>currentMessages := history latest,
             currentLoadedSessionId := Some (session_id latest),
             historyShared := True, metaCycle := False\<rparr>)"
  from renderMessagesTo_Done [OF hp, of ?s]
  obtain ps where r: "renderMessagesTo (history latest) ?s =
      Done ((emptyMessagesEl ?s)\<lparr>messagesEl := ps\<rparr>)" ..
  define s1 where "s1 = (emptyMessagesEl ?s)\<lparr>messagesEl := ps\<rparr>"
  have s1: "main users (Some name) = Done s1"
    using checkCurrentUserSession_latest [OF m' n f c] r by (simp add: main_def i0 s1_def)
  have f1: "currentUser s1 = Some p" "currentMessages s1 = history latest"
    "currentLoadedSessionId s1 = Some (session_id latest)" "historyShared s1" "\<not> metaCycle s1"
    "storedUsers s1 = users" "pending s1 = []"
    by (simp_all add: s1_def initializeChat_def updateUIForLogin_def initialState_def
        emptyMessagesEl_def)
  from main_establishes [OF so] s1 have inv1: "inv s1"
    by simp
  from submit_Done [OF t, of resp s1]
  obtain s2 where s2: "submit inputValue resp s1 = Done s2"
    and m2: "currentMessages s2 =
      currentMessages s1 @
        \<lparr>role = USER, parts = [trim inputValue],
          meta = Some (avatar (getCurrentUserProfile s1), username (getCurrentUserProfile s1))\<rparr> #
        (if failed resp then []
         else [\<lparr>role = MODEL, parts = [concat (chunks resp)], meta = None\<rparr>])"
    and st2: "storedUsers s2 = storedUsers s1" and cu2: "currentUser s2 = currentUser s1"
    and ld2: "currentLoadedSessionId s2 = currentLoadedSessionId s1"
    and mc2: "metaCycle s2 = (metaCycle s1 \<or> (historyShared s1 \<and> currentUser s1 \<noteq> None))"
    by blast
  from submit_preserves [OF inv1, of inputValue resp] s2 have inv2: "inv s2"
    by simp
  have m2': "currentMessages s2 =
             history latest @
               \<lparr>role = USER, parts = [trim inputValue], meta = Some (avatar p, username p)\<rparr> #
               (if failed resp then []
                else [\<lparr>role = MODEL, parts = [concat (chunks resp)], meta = None\<rparr>])"
    by (simp add: m2 f1 getCurrentUserProfile_def)
  have "metaCycle s2"
    by (simp add: mc2 f1)
  then show ?thesis
    using s1 s2 f1 inv1 inv2 m2' by (simp add: st2 cu2 ld2)
qed

text \<open>Replacing the entries with one id by one entry with that id.\<close>

lemma replace_by_id:
  assumes d: "distinct (map f xs)" and a: "a \<in> f ` set xs" and b: "f b = a"
  shows "length (b # filter (\<lambda>y. f y \<noteq> a) xs) = length xs"
    and "f ` set (b # filter (\<lambda>y. f y \<noteq> a) xs) = f ` set xs"
    and "distinct (map f (b # filter (\<lambda>y. f y \<noteq> a) xs))"
proof -
  show "length (b # filter (\<lambda>y. f y \<noteq> a) xs) = length xs"
    using filter_other_length [OF d a] by simp
  show "f ` set (b # filter (\<lambda>y. f y \<noteq> a) xs) = f ` set xs"
    using a b by auto
  show "distinct (map f (b # filter (\<lambda>y. f y \<noteq> a) xs))"
    using d b by (auto simp add: distinct_map_filter')
qed

lemma save_noop:
  "currentMessages s = [] \<or> currentUser s = None \<Longrightarrow> saveChatSession clk s = Done s"
  by (auto simp add: saveChatSession_nothing saveChatSession_guest)

lemma saveChatSession_user:
  "saveChatSession clk s = Done s' \<Longrightarrow> currentUser s' = currentUser s"
  by (auto simp add: saveChatSession_def saveUsers_def setItem_users_def Let_def
      split: option.splits list.splits if_splits)

section \<open>The example states\<close>

lemmas example_defs = alice_def aliceSaved_def aliceTwo_def hiSession_def byeSession_def
  hiConversation_def byeConversation_def

lemmas inv_defs = inv_def storeOk_def profileOk_def sessionOk_def hasParts_def getUsers_def

lemma alice_name: "str ''alice'' \<noteq> []" "username aliceSaved = str ''alice''"
  "username aliceTwo = str ''alice''"
  by (simp_all add: str_def aliceSaved_def aliceTwo_def alice_def)

text \<open>Alice after \<open>main\<close> has restored her session, and after her next message.\<close>

lemma aliceStuck_state:
  "main (Some [aliceSaved]) (Some (str ''alice'')) = Done aliceRestored \<and>
   submit (str ''again'') \<lparr>chunks = [str ''ok''], failed = False\<rparr> aliceRestored = Done aliceStuck \<and>
   currentUser aliceRestored = Some aliceSaved \<and>
   currentMessages aliceRestored = hiConversation \<and>
   currentLoadedSessionId aliceRestored = Some 1735689601000 \<and>
   historyShared aliceRestored \<and> \<not> metaCycle aliceRestored \<and>
   currentUser aliceStuck = Some aliceSaved \<and>
   storedUsers aliceStuck = Some [aliceSaved] \<and>
   currentLoadedSessionId aliceStuck = Some 1735689601000 \<and>
   currentMessages aliceStuck =
     hiConversation @
       [\<lparr>role = USER, parts = [str ''again''], meta = Some ([0xD83E, 0xDDD1], str ''alice'')\<rparr>,
        \<lparr>role = MODEL, parts = [str ''ok''], meta = None\<rparr>] \<and>
   metaCycle aliceStuck \<and> inv aliceRestored \<and> inv aliceStuck \<and>
   reachable aliceRestored \<and> reachable aliceStuck"
proof -
  have so: "storeOk (getUsers (initialState (Some [aliceSaved]) (Some (str ''alice''))))"
    by (simp add: initialState_def inv_defs example_defs str_def)
  have f: "find (\<lambda>u. username u = str ''alice'')
      (getUsers (initialState (Some [aliceSaved]) (Some (str ''alice'')))) = Some aliceSaved"
    by (simp add: initialState_def getUsers_def alice_name)
  have c: "chatHistory aliceSaved = [hiSession]"
    by (simp add: aliceSaved_def)
  have t: "trim (str ''again'') = str ''again''"
    by (simp add: trim_literal)
  then have t': "trim (str ''again'') \<noteq> []"
    by (simp add: str_def)
  from restored_send [OF so f c t', of "\<lparr>chunks = [str ''ok''], failed = False\<rparr>"]
  obtain s1 s2 where m: "main (Some [aliceSaved]) (Some (str ''alice'')) = Done s1"
    and sb: "submit (str ''again'') \<lparr>chunks = [str ''ok''], failed = False\<rparr> s1 = Done s2"
    and f1: "currentUser s1 = Some aliceSaved" "currentMessages s1 = history hiSession"
      "currentLoadedSessionId s1 = Some (session_id hiSession)" "historyShared s1"
      "\<not> metaCycle s1" "pending s1 = []"
    and f2: "currentUser s2 = Some aliceSaved" "storedUsers s2 = Some [aliceSaved]"
      "currentLoadedSessionId s2 = Some (session_id hiSession)"
    and m2: "currentMessages s2 =
      history hiSession @
        \<lparr>role = USER, parts = [trim (str ''again'')],
          meta = Some (avatar aliceSaved, username aliceSaved)\<rparr> #
        (if failed \<lparr>chunks = [str ''ok''], failed = False\<rparr> then []
         else [\<lparr>role = MODEL,
                 parts = [concat (chunks \<lparr>chunks = [str ''ok''], failed = False\<rparr>)],
                 meta = None\<rparr>])"
    and c2: "metaCycle s2" and i1: "inv s1" and i2: "inv s2"
    by blast
  have e1: "aliceRestored = s1"
    by (simp add: aliceRestored_def m)
  have e2: "aliceStuck = s2"
    by (simp add: aliceStuck_def e1 sb)
  have h: "history hiSession = hiConversation" "session_id hiSession = 1735689601000"
    by (simp_all add: hiSession_def)
  have m2': "currentMessages s2 =
     hiConversation @
       [\<lparr>role = USER, parts = [str ''again''], meta = Some ([0xD83E, 0xDDD1], str ''alice'')\<rparr>,
        \<lparr>role = MODEL, parts = [str ''ok''], meta = None\<rparr>]"
    by (simp add: m2 t h aliceSaved_def alice_def)
  have r1: "reachable s1"
    by (rule reachable.start [OF so m])
  from reachable_submit [OF r1 f1(6), of "str ''again''" "\<lparr>chunks = [str ''ok''], failed = False\<rparr>"]
  have r2: "reachable s2"
    by (simp add: sb)
  show ?thesis
    unfolding e1 e2 using m sb f1 f2 m2' c2 i1 i2 r1 r2 by (simp add: h)
qed

text \<open>Alice after she has logged in and sent one message.\<close>

lemma aliceLater_state:
  "reachable aliceLater \<and> inv aliceLater \<and> currentUser aliceLater = Some aliceTwo \<and>
   sessionsOf (str ''alice'') aliceLater = [byeSession, hiSession] \<and>
   getChatSessions aliceLater = [byeSession, hiSession] \<and>
   currentLoadedSessionId aliceLater = None \<and> \<not> metaCycle aliceLater \<and>
   currentMessages aliceLater =
     [\<lparr>role = USER, parts = [str ''later''], meta = Some ([0xD83E, 0xDDD1], str ''alice'')\<rparr>,
      \<lparr>role = MODEL, parts = [str ''ok''], meta = None\<rparr>]"
proof -
  let ?s0 = "initialState (Some [aliceTwo]) None"
  have so: "storeOk (getUsers ?s0)"
    by (simp add: initialState_def inv_defs example_defs str_def)
  have m: "main (Some [aliceTwo]) None = Done ?s0"
    using checkCurrentUserSession_absent [of ?s0]
    by (simp add: main_def initializeChat_def initialState_def)
  from main_establishes [OF so] m have i0: "inv ?s0"
    by simp
  have r0: "reachable ?s0"
    by (rule reachable.start [OF so m])
  define s1 where "s1 = login (str ''alice'') (str ''secret'') ?s0"
  have i1: "inv s1"
    unfolding s1_def by (rule login_preserves [OF i0])
  from reachable.step [OF r0, of "Login (str ''alice'') (str ''secret'')"]
  have r1: "reachable s1"
    by (simp add: s1_def)
  have f1: "currentUser s1 = Some aliceTwo" "storedUsers s1 = Some [aliceTwo]"
    "currentMessages s1 = []" "currentLoadedSessionId s1 = None" "\<not> metaCycle s1"
    "\<not> historyShared s1" "pending s1 = []"
    by (simp_all add: s1_def login_def getUsers_def initialState_def initializeChat_def
        updateUIForLogin_def emptyMessagesEl_def aliceTwo_def alice_def)
  have t: "trim (str ''later'') = str ''later''"
    by (simp add: trim_literal)
  then have "trim (str ''later'') \<noteq> []"
    by (simp add: str_def)
  from submit_Done [OF this, of "\<lparr>chunks = [str ''ok''], failed = False\<rparr>" s1]
  obtain s2 where s2: "submit (str ''later'') \<lparr>chunks = [str ''ok''], failed = False\<rparr> s1 = Done s2"
    and m2: "currentMessages s2 =
      [\<lparr>role = USER, parts = [str ''later''],
         meta = Some (avatar (getCurrentUserProfile s1), username (getCurrentUserProfile s1))\<rparr>,
       \<lparr>role = MODEL, parts = [str ''ok''], meta = None\<rparr>]"
    and st2: "storedUsers s2 = storedUsers s1" and cu2: "currentUser s2 = Some aliceTwo"
    and id2: "currentLoadedSessionId s2 = None" and nc2: "\<not> metaCycle s2"
    by (auto simp add: f1 t)
  from submit_preserves [OF i1, of "str ''later''" "\<lparr>chunks = [str ''ok''], failed = False\<rparr>"] s2
  have i2: "inv s2"
    by simp
  have e: "aliceLater = s2"
    using s2 m by (simp add: aliceLater_def s1_def)
  from reachable_submit [OF r1 f1(7), of "str ''later''" "\<lparr>chunks = [str ''ok''], failed = False\<rparr>"]
  have r2: "reachable s2"
    by (simp add: s2)
  have h2: "sessionsOf (str ''alice'') s2 = [byeSession, hiSession]"
    by (simp add: sessionsOf_def getUsers_def st2 f1 alice_name) (simp add: aliceTwo_def)
  have g2: "getChatSessions s2 = [byeSession, hiSession]"
    by (simp add: getChatSessions_sessionsOf [OF cu2] alice_name h2)
  have m2': "currentMessages s2 =
     [\<lparr>role = USER, parts = [str ''later''], meta = Some ([0xD83E, 0xDDD1], str ''alice'')\<rparr>,
      \<lparr>role = MODEL, parts = [str ''ok''], meta = None\<rparr>]"
    by (simp add: m2 getCurrentUserProfile_def f1 aliceTwo_def alice_def)
  show ?thesis
    unfolding e using r2 i2 cu2 h2 g2 id2 nc2 m2' by simp
qed

section \<open>C1: saving twice\<close>

text \<open>
  C1. The page saves a conversation by the handler of the new chat button, of the load
  button or of the logout button (\<open>saveChatSession\<close> has no other caller), so two saves
  with no edit between them are two of these events in a row. In a state that satisfies
  the invariant, for an authenticated user, let the page offer a first such event
  (a session to load is one of the list, and the clock reading is not the id of a saved
  session), and let any such event follow it. Then the second save leaves the session
  list of the user as long as the first save left it, with the same ids, no two of them
  equal; and the session that the first save stored for a conversation that was not
  empty is at the head of the list after it, and its id is still an id of the list
  after the second. (A conversation that holds a cycle is saved by neither event: both
  throw, and the list stays as it was.) For a conversation that has a persisted id,
  \<open>saveChatSession\<close> called twice in a row does the same: the second call leaves the
  list as long as the first call left it, with the same ids in the same order, and the
  head keeps the persisted id.
\<close>

theorem saving_twice_keeps_sessions:
  assumes i: "inv s" and cu: "currentUser s = Some cu"
    and e1: "saveClock e1 = Some c1" and en: "enabled e1 s"
    and e2: "saveClock e2 = Some c2"
  shows "length (sessionsOf (username cu) (result (handler e2 (result (handler e1 s))))) =
           length (sessionsOf (username cu) (result (handler e1 s))) \<and>
         session_id ` set (sessionsOf (username cu) (result (handler e2 (result (handler e1 s))))) =
           session_id ` set (sessionsOf (username cu) (result (handler e1 s))) \<and>
         distinct (map session_id
           (sessionsOf (username cu) (result (handler e2 (result (handler e1 s)))))) \<and>
         (currentMessages s \<noteq> [] \<and> \<not> metaCycle s \<longrightarrow>
            (\<exists>rest. sessionsOf (username cu) (result (handler e1 s)) = builtSession c1 s # rest) \<and>
            session_id (builtSession c1 s) \<in>
              session_id ` set (sessionsOf (username cu) (result (handler e2 (result (handler e1 s)))))) \<and>
         (currentMessages s \<noteq> [] \<and> \<not> metaCycle s \<and> currentLoadedSessionId s = Some i \<longrightarrow>
            (\<exists>s1 s2. saveChatSession c1 s = Done s1 \<and> saveChatSession c2 s1 = Done s2 \<and>
               length (getChatSessions s2) = length (getChatSessions s1) \<and>
               map session_id (getChatSessions s2) = map session_id (getChatSessions s1) \<and>
               session_id (hd (getChatSessions s1)) = i \<and>
               session_id (hd (getChatSessions s2)) = i))"
proof -
  let ?n = "username cu"
  let ?s1 = "result (handler e1 s)"
  let ?s2 = "result (handler e2 ?s1)"
  let ?L1 = "sessionsOf ?n ?s1"
  let ?L2 = "sessionsOf ?n ?s2"
  have L2: "?L2 = sessionsOf ?n (result (saveChatSession c2 ?s1))"
    by (rule saving_sessions [OF e2])
  have L1: "?L1 = sessionsOf ?n (result (saveChatSession c1 s))"
    by (rule saving_sessions [OF e1])
  have ex: "list_ex (\<lambda>u. username u = ?n) (getUsers s)"
    by (rule inv_user_stored [OF i cu])
  have f: "freshClock c1 s"
    using en e1 by (cases e1) simp_all
  have core: "length ?L2 = length ?L1 \<and> session_id ` set ?L2 = session_id ` set ?L1 \<and>
              distinct (map session_id ?L2)"
  proof (cases "metaCycle s")
    case True
    have s1: "?s1 = s"
      using cycle_blocks_saving [OF i True e1] by simp
    have "result (saveChatSession c2 s) = s"
      by (rule saveChatSession_cyclic_result [OF True])
    with saving_sessions [OF e2, of ?n s] have "?L2 = sessionsOf ?n s"
      by (simp add: s1)
    moreover have "distinct (map session_id (sessionsOf ?n s))"
      using inv_sessions_distinct [OF i] by (simp add: getChatSessions_sessionsOf [OF cu])
    ultimately show ?thesis
      by (simp add: s1)
  next
    case False
    from save_preserves [OF i f False]
    obtain s0 where s0: "saveChatSession c1 s = Done s0" and i0: "inv s0"
      and cu0: "currentUser s0 = currentUser s"
      by blast
    have d0: "distinct (map session_id (sessionsOf ?n s0))"
      using inv_sessions_distinct [OF i0] cu0 cu by (simp add: getChatSessions_sessionsOf)
    have L1': "?L1 = sessionsOf ?n s0"
      by (simp add: L1 s0)
    consider (new) "e1 = NewChat c1" | (out) "e1 = Logout c1" | (load) x where "e1 = LoadChat c1 x"
      using e1 by (cases e1) auto
    then show ?thesis
    proof cases
      case new
      then have "currentMessages ?s1 = []"
        by (simp add: newChat_Done [OF s0] initializeChat_def emptyMessagesEl_fields)
      then have "saveChatSession c2 ?s1 = Done ?s1"
        by (simp add: save_noop)
      then have "?L2 = ?L1"
        by (simp add: L2)
      then show ?thesis
        using d0 by (simp add: L1')
    next
      case out
      then have "currentUser ?s1 = None"
        by (simp add: logout_Done [OF s0] updateUIForLogout_def initializeChat_def
            emptyMessagesEl_fields)
      then have "saveChatSession c2 ?s1 = Done ?s1"
        by (simp add: save_noop)
      then have "?L2 = ?L1"
        by (simp add: L2)
      then show ?thesis
        using d0 by (simp add: L1')
    next
      case load
      then have x: "x \<in> set (getChatSessions s)"
        using en by simp
      from load_then_save_sessions [OF i cu x False, of c1 c2]
      obtain s1 s2 where l: "loadChat c1 x s = Done s1" and sv: "saveChatSession c2 s1 = Done s2"
        and h2: "sessionsOf ?n s2 =
                   builtSession c2 s1 #
                     filter (\<lambda>y. session_id y \<noteq> session_id x) (sessionsOf ?n s1)"
        and b: "session_id (builtSession c2 s1) = session_id x"
        and mem: "session_id x \<in> session_id ` set (sessionsOf ?n s1)"
        and cu1: "currentUser s1 = Some cu"
        by blast
      have e: "?s1 = s1"
        using load l by simp
      from handler_outcome [OF i en] have i1: "inv s1"
        using load l by simp
      have d1: "distinct (map session_id (sessionsOf ?n s1))"
        using inv_sessions_distinct [OF i1] by (simp add: getChatSessions_sessionsOf [OF cu1])
      have "?L2 = builtSession c2 s1 #
                    filter (\<lambda>y. session_id y \<noteq> session_id x) (sessionsOf ?n s1)"
        using saving_sessions [OF e2, of ?n s1] by (simp add: e sv h2)
      with replace_by_id [OF d1 mem b] show ?thesis
        by (simp add: e)
    qed
  qed
  have first: "\<exists>rest. ?L1 = builtSession c1 s # rest"
    if a: "currentMessages s \<noteq> []" "\<not> metaCycle s"
  proof -
    from saveChatSession_cases [OF cu ex inv_hasParts [OF i] a(2), of c1] a(1)
    obtain s0 where "saveChatSession c1 s = Done s0"
      and "sessionsOf ?n s0 =
             builtSession c1 s #
               filter (\<lambda>x. Some (session_id x) \<noteq> currentLoadedSessionId s) (sessionsOf ?n s)"
      by auto
    then show ?thesis
      by (simp add: L1)
  qed
  have direct: "\<exists>s1 s2. saveChatSession c1 s = Done s1 \<and> saveChatSession c2 s1 = Done s2 \<and>
               length (getChatSessions s2) = length (getChatSessions s1) \<and>
               map session_id (getChatSessions s2) = map session_id (getChatSessions s1) \<and>
               session_id (hd (getChatSessions s1)) = i \<and>
               session_id (hd (getChatSessions s2)) = i"
    if a: "currentMessages s \<noteq> [] \<and> \<not> metaCycle s \<and> currentLoadedSessionId s = Some i"
  proof -
    from a obtain m ms where m: "currentMessages s = m # ms"
      by (cases "currentMessages s") auto
    have pm: "parts m \<noteq> []" and nz: "i \<noteq> 0"
      using i m a by (simp_all add: inv_def hasParts_def)
    from save_twice_sessions [OF cu ex m pm _ nz, of c1 c2] a show ?thesis
      by blast
  qed
  show ?thesis
  proof (intro conjI impI)
    show "length ?L2 = length ?L1" "session_id ` set ?L2 = session_id ` set ?L1"
      "distinct (map session_id ?L2)"
      using core by simp_all
  next
    assume "currentMessages s \<noteq> [] \<and> \<not> metaCycle s \<and> currentLoadedSessionId s = Some i"
    then show "\<exists>s1 s2. saveChatSession c1 s = Done s1 \<and> saveChatSession c2 s1 = Done s2 \<and>
               length (getChatSessions s2) = length (getChatSessions s1) \<and>
               map session_id (getChatSessions s2) = map session_id (getChatSessions s1) \<and>
               session_id (hd (getChatSessions s1)) = i \<and>
               session_id (hd (getChatSessions s2)) = i"
      by (rule direct)
  next
    assume a: "currentMessages s \<noteq> [] \<and> \<not> metaCycle s"
    then obtain rest where r: "?L1 = builtSession c1 s # rest"
      using first by blast
    then show "\<exists>rest. ?L1 = builtSession c1 s # rest"
      by blast
    have "session_id (builtSession c1 s) \<in> session_id ` set ?L1"
      by (simp add: r)
    then show "session_id (builtSession c1 s) \<in> session_id ` set ?L2"
      using core by simp
  qed
qed

text \<open>
  The theorem for alice, who has two saved sessions and an unsaved conversation: she
  loads the \<open>bye\<close> session and then clicks the new chat button. The load stores the
  unsaved conversation as a third session; the next save leaves three.
\<close>

theorem saving_twice_keeps_sessions_witness:
  "inv aliceLater \<and> currentUser aliceLater = Some aliceTwo \<and>
   saveClock (LoadChat clock3 byeSession) = Some clock3 \<and>
   enabled (LoadChat clock3 byeSession) aliceLater \<and>
   saveClock (NewChat clock4) = Some clock4 \<and>
   currentMessages aliceLater \<noteq> [] \<and> \<not> metaCycle aliceLater \<and>
   length (sessionsOf (str ''alice'')
     (result (handler (NewChat clock4) (result (handler (LoadChat clock3 byeSession) aliceLater))))) =
     length (sessionsOf (str ''alice'') (result (handler (LoadChat clock3 byeSession) aliceLater))) \<and>
   session_id ` set (sessionsOf (str ''alice'')
     (result (handler (NewChat clock4) (result (handler (LoadChat clock3 byeSession) aliceLater))))) =
     session_id ` set (sessionsOf (str ''alice'')
       (result (handler (LoadChat clock3 byeSession) aliceLater))) \<and>
   (\<exists>rest. sessionsOf (str ''alice'') (result (handler (LoadChat clock3 byeSession) aliceLater)) =
      builtSession clock3 aliceLater # rest) \<and>
   session_id (builtSession clock3 aliceLater) = 1735689603000 \<and>
   session_id (builtSession clock3 aliceLater) \<in> session_id ` set (sessionsOf (str ''alice'')
     (result (handler (NewChat clock4) (result (handler (LoadChat clock3 byeSession) aliceLater)))))"
proof -
  note a = aliceLater_state
  from a have i: "inv aliceLater" and cu: "currentUser aliceLater = Some aliceTwo"
    and g: "getChatSessions aliceLater = [byeSession, hiSession]"
    and ld: "currentLoadedSessionId aliceLater = None"
    and ne: "currentMessages aliceLater \<noteq> []" and nc: "\<not> metaCycle aliceLater"
    by simp_all
  have e1: "saveClock (LoadChat clock3 byeSession) = Some clock3"
    and e2: "saveClock (NewChat clock4) = Some clock4"
    by simp_all
  have en: "enabled (LoadChat clock3 byeSession) aliceLater"
    by (simp add: g freshClock_def clock3_def byeSession_def hiSession_def)
  have b: "session_id (builtSession clock3 aliceLater) = 1735689603000"
    by (simp add: builtSession_id_new ld clock3_def)
  note t = saving_twice_keeps_sessions [OF i cu e1 en e2, unfolded alice_name(3)]
  from t ne nc have
    "\<exists>rest. sessionsOf (str ''alice'') (result (handler (LoadChat clock3 byeSession) aliceLater)) =
      builtSession clock3 aliceLater # rest"
    "session_id (builtSession clock3 aliceLater) \<in> session_id ` set (sessionsOf (str ''alice'')
     (result (handler (NewChat clock4) (result (handler (LoadChat clock3 byeSession) aliceLater)))))"
    by blast+
  with t i cu e1 en e2 ne nc b show ?thesis
    by blast
qed

section \<open>C2: a request that fails\<close>




section \<open>C3: the scenario\<close>

text \<open>
  C3. The page has no save of its own: \<open>saveChatSession\<close> is called by the handlers of
  the new chat button, of the load button and of the logout button, and by nothing
  else. The scenario is therefore run by the events of the page: signup of alice; the
  message \<open>hi\<close>, answered by the chunks \<open>hel\<close> and \<open>lo\<close>; the new chat button, whose
  handler saves the conversation and starts a new one; the message \<open>bye\<close>; and the new
  chat button or the logout button, whose handlers save again. From the empty store,
  the signup gives a stored list of length one, alice with no session; the first
  message and its answer give the two messages USER \<open>hi\<close> and MODEL \<open>hello\<close>; the first
  save gives alice one session, titled \<open>hi...\<close>, that holds them; the second save gives
  her two sessions, newest first: the \<open>bye\<close> session, then the \<open>hi\<close> session. No
  handler throws. This holds for every password, avatar, clock reading and answer to
  \<open>bye\<close>.
\<close>

theorem scenario_two_sessions:
  "let s1 = signup (str ''alice'') pw av (initialState None None);
       s2 = result (submit (str ''hi'') \<lparr>chunks = [str ''hel'', str ''lo''], failed = False\<rparr> s1);
       s3 = result (newChat c1 s2);
       s4 = result (submit (str ''bye'') r s3);
       s5 = result (newChat c2 s4);
       s6 = result (logout c2 s4)
   in length (getUsers s1) = 1 \<and>
      map (\<lambda>u. (username u, chatHistory u)) (getUsers s1) = [(str ''alice'', [])] \<and>
      submit (str ''hi'') \<lparr>chunks = [str ''hel'', str ''lo''], failed = False\<rparr> s1 = Done s2 \<and>
      length (currentMessages s2) = 2 \<and>
      map (\<lambda>m. (role m, parts m)) (currentMessages s2) =
        [(USER, [str ''hi'']), (MODEL, [str ''hello''])] \<and>
      newChat c1 s2 = Done s3 \<and>
      length (getChatSessions s3) = 1 \<and>
      map title (getChatSessions s3) = [str ''hi...''] \<and>
      map (\<lambda>x. map (\<lambda>m. (role m, parts m)) (history x)) (getChatSessions s3) =
        [[(USER, [str ''hi'']), (MODEL, [str ''hello''])]] \<and>
      currentMessages s3 = [] \<and>
      submit (str ''bye'') r s3 = Done s4 \<and>
      newChat c2 s4 = Done s5 \<and>
      length (getChatSessions s5) = 2 \<and>
      map title (getChatSessions s5) = [str ''bye...'', str ''hi...''] \<and>
      map session_id (getChatSessions s5) = [Date_now c2, Date_now c1] \<and>
      logout c2 s4 = Done s6 \<and>
      map title (sessionsOf (str ''alice'') s6) = [str ''bye...'', str ''hi...''] \<and>
      map session_id (sessionsOf (str ''alice'') s6) = [Date_now c2, Date_now c1]"
proof -
  from scenario_states [of pw av c1 r c2]
  obtain s2 s3 s4 s5 s6 where s:
    "submit (str ''hi'') \<lparr>chunks = [str ''hel'', str ''lo''], failed = False\<rparr>
       (signup (str ''alice'') pw av (initialState None None)) = Done s2"
    "newChat c1 s2 = Done s3" "submit (str ''bye'') r s3 = Done s4"
    "newChat c2 s4 = Done s5" "logout c2 s4 = Done s6"
    and u: "getUsers (signup (str ''alice'') pw av (initialState None None)) =
       [\<lparr>username = str ''alice'',
         avatar = (case av of None \<Rightarrow> DEFAULT_AVATAR
                   | Some a \<Rightarrow> if a = [] then DEFAULT_AVATAR else a),
         password = Some pw, chatHistory = []\<rparr>]"
    and m2: "map (\<lambda>m. (role m, parts m)) (currentMessages s2) =
       [(USER, [str ''hi'']), (MODEL, [str ''hello''])]"
    and g3: "map (\<lambda>x. (session_id x, title x)) (getChatSessions s3) = [(Date_now c1, str ''hi...'')]"
    and h3: "map (\<lambda>x. map (\<lambda>m. (role m, parts m)) (history x)) (getChatSessions s3) =
       [[(USER, [str ''hi'']), (MODEL, [str ''hello''])]]"
    and m3: "currentMessages s3 = []"
    and g5: "map (\<lambda>x. (session_id x, title x)) (getChatSessions s5) =
       [(Date_now c2, str ''bye...''), (Date_now c1, str ''hi...'')]"
    and g6: "map (\<lambda>x. (session_id x, title x)) (sessionsOf (str ''alice'') s6) =
       [(Date_now c2, str ''bye...''), (Date_now c1, str ''hi...'')]"
    by auto
  have l2: "length (currentMessages s2) = 2"
    using arg_cong [OF m2, of length] by simp
  have l3: "length (getChatSessions s3) = 1"
    using arg_cong [OF g3, of length] by simp
  have l5: "length (getChatSessions s5) = 2"
    using arg_cong [OF g5, of length] by simp
  note p3 = map_pair_split [OF g3]
  note p5 = map_pair_split [OF g5]
  note p6 = map_pair_split [OF g6]
  show ?thesis
    using s u m2 h3 m3 l2 l3 l5 p3 p5 p6 by (simp add: Let_def)
qed

section \<open>C4: loading a session and saving it\<close>

text \<open>
  C4, as amended. In a state that satisfies the invariant and whose conversation holds
  no cycle, let \<open>x\<close> be a session of the list of the authenticated user. The load
  handler first saves the conversation it is about to replace, which adds an entry to
  the list when that conversation is not empty and no entry has its persisted id; then
  the conversation is the history of \<open>x\<close> and the persisted id is the id of \<open>x\<close>. The
  save of the next event that saves (new chat, load or logout) replaces by id: the list
  is then the rebuilt session, with the id and the history of \<open>x\<close>, followed by the
  entries that have another id, in their order. Exactly one entry has the id of \<open>x\<close>.
  This save never makes the list longer, and it leaves the length as the load left it,
  unless the load minted the id of \<open>x\<close> once more for the conversation it saved.
\<close>

theorem load_then_save_replaces:
  assumes i: "inv s" and cu: "currentUser s = Some cu"
    and x: "x \<in> set (getChatSessions s)"
    and nc: "\<not> metaCycle s"
    and e: "saveClock e = Some c2"
  shows "\<exists>s1 rebuilt.
           loadChat c1 x s = Done s1 \<and>
           currentMessages s1 = history x \<and>
           currentLoadedSessionId s1 = Some (session_id x) \<and>
           sessionsOf (username cu) s1 =
             (if currentMessages s = [] then sessionsOf (username cu) s
              else builtSession c1 s #
                     filter (\<lambda>y. Some (session_id y) \<noteq> currentLoadedSessionId s)
                       (sessionsOf (username cu) s)) \<and>
           sessionsOf (username cu) (result (handler e s1)) =
             rebuilt # filter (\<lambda>y. session_id y \<noteq> session_id x) (sessionsOf (username cu) s1) \<and>
           session_id rebuilt = session_id x \<and> history rebuilt = history x \<and>
           startTime rebuilt = toISOString c2 \<and>
           length (filter (\<lambda>y. session_id y = session_id x)
                     (sessionsOf (username cu) (result (handler e s1)))) = 1 \<and>
           length (sessionsOf (username cu) (result (handler e s1))) \<le>
             length (sessionsOf (username cu) s1) \<and>
           (currentMessages s = [] \<or> currentLoadedSessionId s \<noteq> None \<or>
            Date_now c1 \<noteq> session_id x \<longrightarrow>
              length (sessionsOf (username cu) (result (handler e s1))) =
                length (sessionsOf (username cu) s1))"
proof -
  let ?n = "username cu"
  from load_then_save_sessions [OF i cu x nc, of c1 c2]
  obtain s1 s2 where l: "loadChat c1 x s = Done s1" and sv: "saveChatSession c2 s1 = Done s2"
    and f1: "currentMessages s1 = history x" "currentLoadedSessionId s1 = Some (session_id x)"
    and h1: "sessionsOf ?n s1 =
             (if currentMessages s = [] then sessionsOf ?n s
              else builtSession c1 s #
                     filter (\<lambda>y. Some (session_id y) \<noteq> currentLoadedSessionId s)
                       (sessionsOf ?n s))"
    and h2: "sessionsOf ?n s2 =
               builtSession c2 s1 #
                 filter (\<lambda>y. session_id y \<noteq> session_id x) (sessionsOf ?n s1)"
    and b: "session_id (builtSession c2 s1) = session_id x"
      "history (builtSession c2 s1) = history x"
    and cnt: "length (filter (\<lambda>y. session_id y = session_id x) (sessionsOf ?n s1)) =
             (if currentMessages s \<noteq> [] \<and> currentLoadedSessionId s = None \<and>
                 Date_now c1 = session_id x
              then 2 else 1)"
    by blast
  let ?L1 = "sessionsOf ?n s1"
  let ?L2 = "sessionsOf ?n (result (handler e s1))"
  have L2: "?L2 = builtSession c2 s1 # filter (\<lambda>y. session_id y \<noteq> session_id x) ?L1"
    by (simp add: saving_sessions [OF e] sv h2)
  have st: "startTime (builtSession c2 s1) = toISOString c2"
    by (simp add: builtSession_def)
  have "filter (\<lambda>y. session_id y = session_id x)
          (filter (\<lambda>y. session_id y \<noteq> session_id x) ?L1) = []"
    by (simp add: filter_empty_conv)
  then have one: "length (filter (\<lambda>y. session_id y = session_id x) ?L2) = 1"
    by (simp add: L2 b)
  have sum: "length (filter (\<lambda>y. session_id y \<noteq> session_id x) ?L1) +
             length (filter (\<lambda>y. session_id y = session_id x) ?L1) = length ?L1"
    by (rule length_filter_other)
  have le: "length ?L2 \<le> length ?L1"
    using sum cnt by (simp add: L2 split: if_splits)
  have eq: "length ?L2 = length ?L1"
    if "currentMessages s = [] \<or> currentLoadedSessionId s \<noteq> None \<or> Date_now c1 \<noteq> session_id x"
    using sum cnt that by (auto simp add: L2 split: if_splits)
  show ?thesis
    by (rule exI [of _ s1], rule exI [of _ "builtSession c2 s1"])
      (use eq in \<open>intro conjI l f1 h1 L2 b st one le impI\<close>)
qed

text \<open>
  The theorem for alice, who has two saved sessions and an unsaved conversation: she
  loads the \<open>hi\<close> session and then clicks the new chat button.
\<close>

theorem load_then_save_replaces_witness:
  "inv aliceLater \<and> currentUser aliceLater = Some aliceTwo \<and>
   hiSession \<in> set (getChatSessions aliceLater) \<and> \<not> metaCycle aliceLater \<and>
   saveClock (NewChat clock4) = Some clock4 \<and>
   (\<exists>s1 rebuilt.
      loadChat clock3 hiSession aliceLater = Done s1 \<and>
      currentMessages s1 = hiConversation \<and>
      currentLoadedSessionId s1 = Some 1735689601000 \<and>
      sessionsOf (str ''alice'') s1 = [builtSession clock3 aliceLater, byeSession, hiSession] \<and>
      sessionsOf (str ''alice'') (result (handler (NewChat clock4) s1)) =
        [rebuilt, builtSession clock3 aliceLater, byeSession] \<and>
      session_id rebuilt = 1735689601000 \<and> history rebuilt = hiConversation \<and>
      session_id (builtSession clock3 aliceLater) = 1735689603000)"
proof -
  note a = aliceLater_state
  from a have i: "inv aliceLater" and cu: "currentUser aliceLater = Some aliceTwo"
    and g: "getChatSessions aliceLater = [byeSession, hiSession]"
    and h: "sessionsOf (str ''alice'') aliceLater = [byeSession, hiSession]"
    and ld: "currentLoadedSessionId aliceLater = None"
    and ne: "currentMessages aliceLater \<noteq> []" and nc: "\<not> metaCycle aliceLater"
    by simp_all
  have x: "hiSession \<in> set (getChatSessions aliceLater)"
    by (simp add: g)
  have e: "saveClock (NewChat clock4) = Some clock4"
    by simp
  have b: "session_id (builtSession clock3 aliceLater) = 1735689603000"
    by (simp add: builtSession_id_new ld clock3_def)
  have ids: "session_id hiSession = 1735689601000" "session_id byeSession = 1735689602000"
    "history hiSession = hiConversation"
    by (simp_all add: hiSession_def byeSession_def)
  from load_then_save_replaces [OF i cu x nc e, of clock3, unfolded alice_name(3)]
  obtain s1 rebuilt where l: "loadChat clock3 hiSession aliceLater = Done s1"
    and f1: "currentMessages s1 = history hiSession"
      "currentLoadedSessionId s1 = Some (session_id hiSession)"
    and h1: "sessionsOf (str ''alice'') s1 =
             (if currentMessages aliceLater = [] then sessionsOf (str ''alice'') aliceLater
              else builtSession clock3 aliceLater #
                     filter (\<lambda>y. Some (session_id y) \<noteq> currentLoadedSessionId aliceLater)
                       (sessionsOf (str ''alice'') aliceLater))"
    and h2: "sessionsOf (str ''alice'') (result (handler (NewChat clock4) s1)) =
             rebuilt # filter (\<lambda>y. session_id y \<noteq> session_id hiSession)
                         (sessionsOf (str ''alice'') s1)"
    and r: "session_id rebuilt = session_id hiSession" "history rebuilt = history hiSession"
    by blast
  have h1': "sessionsOf (str ''alice'') s1 = [builtSession clock3 aliceLater, byeSession, hiSession]"
    using ne by (simp add: h1 ld h)
  have h2': "sessionsOf (str ''alice'') (result (handler (NewChat clock4) s1)) =
        [rebuilt, builtSession clock3 aliceLater, byeSession]"
    unfolding h2 h1' by (simp add: ids b)
  have "loadChat clock3 hiSession aliceLater = Done s1 \<and>
      currentMessages s1 = hiConversation \<and>
      currentLoadedSessionId s1 = Some 1735689601000 \<and>
      sessionsOf (str ''alice'') s1 = [builtSession clock3 aliceLater, byeSession, hiSession] \<and>
      sessionsOf (str ''alice'') (result (handler (NewChat clock4) s1)) =
        [rebuilt, builtSession clock3 aliceLater, byeSession] \<and>
      session_id rebuilt = 1735689601000 \<and> history rebuilt = hiConversation \<and>
      session_id (builtSession clock3 aliceLater) = 1735689603000"
    using l f1 h1' h2' r b by (simp only: ids simp_thms)
  then show ?thesis
    using i cu x nc e by blast
qed

text \<open>
  C4 as stated fails: alice has two sessions; after she has loaded one of them and
  clicked the new chat button she has three, because the load has saved the
  conversation that she had not saved.
\<close>

theorem load_then_save_counterexample:
  "reachable aliceLater \<and> hiSession \<in> set (getChatSessions aliceLater) \<and>
   length (getChatSessions aliceLater) = 2 \<and>
   length (getChatSessions
     (result (newChat clock4 (result (loadChat clock3 hiSession aliceLater))))) = 3"
proof -
  note a = aliceLater_state
  from a have i: "inv aliceLater" and cu: "currentUser aliceLater = Some aliceTwo"
    and g: "getChatSessions aliceLater = [byeSession, hiSession]"
    and h: "sessionsOf (str ''alice'') aliceLater = [byeSession, hiSession]"
    and ld: "currentLoadedSessionId aliceLater = None"
    and ne: "currentMessages aliceLater \<noteq> []" and nc: "\<not> metaCycle aliceLater"
    by simp_all
  have x: "hiSession \<in> set (getChatSessions aliceLater)"
    by (simp add: g)
  have ids: "session_id hiSession = 1735689601000" "session_id byeSession = 1735689602000"
    by (simp_all add: hiSession_def byeSession_def)
  have b: "session_id (builtSession clock3 aliceLater) = 1735689603000"
    by (simp add: builtSession_id_new ld clock3_def)
  from load_then_save_sessions [OF i cu x nc, of clock3 clock4]
  obtain s1 s2 where l: "loadChat clock3 hiSession aliceLater = Done s1"
    and sv: "saveChatSession clock4 s1 = Done s2"
    and cu1: "currentUser s1 = Some aliceTwo"
    and h2: "sessionsOf (str ''alice'') s2 =
               builtSession clock4 s1 #
                 filter (\<lambda>y. session_id y \<noteq> 1735689601000)
                   [builtSession clock3 aliceLater, byeSession, hiSession]"
    using ne by (auto simp add: alice_name ld h ids)
  have cu2: "currentUser (result (newChat clock4 s1)) = Some aliceTwo"
    using saveChatSession_user [OF sv]
    by (simp add: newChat_Done [OF sv] initializeChat_def emptyMessagesEl_fields cu1)
  have "sessionsOf (str ''alice'') (result (handler (NewChat clock4) s1)) = sessionsOf (str ''alice'') s2"
    using saving_sessions [of "NewChat clock4" clock4 "str ''alice''" s1] sv by simp
  then have "length (sessionsOf (str ''alice'') (result (newChat clock4 s1))) = 3"
    by (simp add: h2 b ids)
  then have "length (getChatSessions (result (newChat clock4 s1))) = 3"
    by (simp add: getChatSessions_sessionsOf [OF cu2] alice_name)
  with x g l a show ?thesis
    by simp
qed

section \<open>C5: saving before the conversation is replaced\<close>

text \<open>
  C5 fails on the code for a conversation that \<open>main\<close> has restored and that the user
  has continued. Alice has one saved session and her name is in the marker, so \<open>main\<close>
  makes her the current user and her saved conversation the current one; she sends
  \<open>again\<close> and receives \<open>ok\<close>. The message that the submit handler has pushed holds a
  copy of her profile, whose first session holds the array it was pushed to, so
  \<open>JSON.stringify\<close> throws in \<open>saveChatSession\<close>. The new chat button, the load button
  and the logout button then each end in that TypeError: the conversation of four
  messages is not saved, the store still holds the session of two messages, and the
  state is as before the click (nothing is cleared or replaced, and alice is not
  logged out). Lemma \<open>cycle_blocks_saving\<close> has this for every such state, and lemma
  \<open>save_then_switch\<close> has what the claim says for the others.
\<close>

theorem restored_conversation_is_not_saved:
  "reachable aliceStuck \<and>
   main (Some [aliceSaved]) (Some (str ''alice'')) = Done aliceRestored \<and>
   currentUser aliceRestored = Some aliceSaved \<and>
   currentMessages aliceRestored = hiConversation \<and>
   submit (str ''again'') \<lparr>chunks = [str ''ok''], failed = False\<rparr> aliceRestored = Done aliceStuck \<and>
   currentUser aliceStuck = Some aliceSaved \<and>
   currentMessages aliceStuck =
     hiConversation @
       [\<lparr>role = USER, parts = [str ''again''], meta = Some ([0xD83E, 0xDDD1], str ''alice'')\<rparr>,
        \<lparr>role = MODEL, parts = [str ''ok''], meta = None\<rparr>] \<and>
   getChatSessions aliceStuck = [hiSession] \<and>
   history hiSession = hiConversation \<and>
   newChat clk aliceStuck = Threw TypeError aliceStuck \<and>
   loadChat clk hiSession aliceStuck = Threw TypeError aliceStuck \<and>
   logout clk aliceStuck = Threw TypeError aliceStuck"
proof -
  note a = aliceStuck_state
  from a have i: "inv aliceStuck" and c: "metaCycle aliceStuck"
    by simp_all
  have n: "newChat clk aliceStuck = Threw TypeError aliceStuck"
    using cycle_blocks_saving [OF i c, of "NewChat clk" clk] by simp
  have l: "loadChat clk hiSession aliceStuck = Threw TypeError aliceStuck"
    using cycle_blocks_saving [OF i c, of "LoadChat clk hiSession" clk] by simp
  have o: "logout clk aliceStuck = Threw TypeError aliceStuck"
    using cycle_blocks_saving [OF i c, of "Logout clk" clk] by simp
  have cu: "currentUser aliceStuck = Some aliceSaved"
    using a by simp
  have st: "storedUsers aliceStuck = Some [aliceSaved]"
    using a by simp
  have g: "getChatSessions aliceStuck = [hiSession]"
    unfolding getChatSessions_sessionsOf [OF cu]
    by (simp add: sessionsOf_def getUsers_def st) (simp add: aliceSaved_def)
  have h: "history hiSession = hiConversation"
    by (simp add: hiSession_def)
  from a n l o g h show ?thesis
    by simp
qed

section \<open>C6: the history filter\<close>

text \<open>
  C6, as amended. For a session list in which every message has a part, the filter
  returns the sessions that match, in the order of the list: it is a subsequence of
  the list, and with the empty query (which \<open>toLowerCase\<close> leaves empty) it is the
  whole list. A session matches if and only if the query, in lower case, occurs in
  the lower-cased title, in the lower-cased formatted start time, or in the lower-cased
  texts of the messages joined by single blanks.
\<close>

theorem filterSessions_subsequence:
  assumes "list_all (\<lambda>x. hasParts (history x)) sessions"
  shows "filterSessions pf query sessions =
           Inr (filter
                  (\<lambda>x. sublist (toLowerCase pf query) (toLowerCase pf (title x)) \<or>
                       sublist (toLowerCase pf query)
                         (toLowerCase pf (toLocaleString pf (startTime x))) \<or>
                       sublist (toLowerCase pf query)
                         (toLowerCase pf (join (str '' '') (map textOf (history x)))))
                  sessions) \<and>
         (\<exists>r. filterSessions pf query sessions = Inr r \<and> subseq r sessions) \<and>
         (toLowerCase pf [] = [] \<longrightarrow> filterSessions pf [] sessions = Inr sessions)"
proof -
  let ?M = "\<lambda>q x. includes_str (toLowerCase pf (title x)) q \<or>
          includes_str (toLowerCase pf (toLocaleString pf (startTime x))) q \<or>
          includes_str (toLowerCase pf (join (str '' '') (map textOf (history x)))) q"
  have "list_all (\<lambda>x. sessionMatches pf q x = Inr (?M q x)) sessions" for q
    using assms by (simp add: list_all_iff sessionMatches_Inr)
  then have f: "filterSessions pf q sessions = Inr (filter (?M (toLowerCase pf q)) sessions)" for q
    unfolding filterSessions_def by (rule filterWith_Inr)
  have 1: "filterSessions pf query sessions =
           Inr (filter
                  (\<lambda>x. sublist (toLowerCase pf query) (toLowerCase pf (title x)) \<or>
                       sublist (toLowerCase pf query)
                         (toLowerCase pf (toLocaleString pf (startTime x))) \<or>
                       sublist (toLowerCase pf query)
                         (toLowerCase pf (join (str '' '') (map textOf (history x)))))
                  sessions)"
    by (simp add: f includes_str_sublist)
  then have 2: "\<exists>r. filterSessions pf query sessions = Inr r \<and> subseq r sessions"
    by simp
  have 3: "toLowerCase pf [] = [] \<longrightarrow> filterSessions pf [] sessions = Inr sessions"
    by (simp add: f includes_str_empty)
  from 1 2 3 show ?thesis
    by blast
qed

text \<open>The theorem for the two sessions of alice and the query \<open>HI\<close>.\<close>

theorem filterSessions_subsequence_witness:
  "list_all (\<lambda>x. hasParts (history x)) [byeSession, hiSession] \<and>
   toLowerCase examplePlatform [] = [] \<and>
   filterSessions examplePlatform (str ''HI'') [byeSession, hiSession] = Inr [hiSession] \<and>
   subseq [hiSession] [byeSession, hiSession] \<and>
   filterSessions examplePlatform [] [byeSession, hiSession] = Inr [byeSession, hiSession]"
proof -
  have 1: "list_all (\<lambda>x. hasParts (history x)) [byeSession, hiSession]"
    by (simp add: hasParts_def byeSession_def hiSession_def byeConversation_def hiConversation_def)
  have 2: "toLowerCase examplePlatform [] = []"
    by (simp add: examplePlatform_def)
  have q: "toLowerCase examplePlatform (str ''HI'') = str ''hi''"
    by (simp add: examplePlatform_def asciiLower_def str_def)
  have h: "sublist (str ''hi'') (toLowerCase examplePlatform (title hiSession))"
    by (simp add: includes_str_sublist [symmetric] examplePlatform_def asciiLower_def str_def
        hiSession_def)
  have b1: "\<not> sublist (str ''hi'') (toLowerCase examplePlatform (title byeSession))"
    by (simp add: includes_str_sublist [symmetric] examplePlatform_def asciiLower_def str_def
        byeSession_def)
  have b2: "\<not> sublist (str ''hi'')
      (toLowerCase examplePlatform (toLocaleString examplePlatform (startTime byeSession)))"
    by (simp add: includes_str_sublist [symmetric] examplePlatform_def asciiLower_def str_def
        byeSession_def)
  have b3: "\<not> sublist (str ''hi'')
      (toLowerCase examplePlatform (join (str '' '') (map textOf (history byeSession))))"
    by (simp add: includes_str_sublist [symmetric] examplePlatform_def asciiLower_def str_def
        byeSession_def byeConversation_def textOf_def)
  from filterSessions_subsequence [OF 1, of examplePlatform "str ''HI''"]
    filterSessions_subsequence [OF 1, of examplePlatform "[]"] 1 2
  show ?thesis
    by (simp add: q h b1 b2 b3)
qed

text \<open>
  C6 as stated fails on the last of the three texts: the message texts are joined with
  a blank between them, not concatenated, so the query \<open>ab\<close> occurs in the
  concatenation of \<open>a\<close> and \<open>b\<close> and the filter still drops the session.
\<close>

theorem filterSessions_concatenation_counterexample:
  "spec_sessionMatches examplePlatform (str ''ab'') abSession \<and>
   filterSessions examplePlatform (str ''ab'') [abSession] = Inr []"
proof -
  have "spec_sessionMatches examplePlatform (str ''ab'') abSession"
    by (simp add: spec_sessionMatches_def examplePlatform_def asciiLower_def str_def
        abSession_def textOf_def)
  moreover have "sessionMatches examplePlatform (toLowerCase examplePlatform (str ''ab'')) abSession
      = Inr False"
    by (simp add: sessionMatches_def examplePlatform_def asciiLower_def str_def abSession_def)
  ultimately show ?thesis
    by (simp add: filterSessions_def)
qed

section \<open>C7: user names in the store\<close>

text \<open>
  C7 fails on the code. The signup handler tests the trimmed input against the stored
  names and then stores \<open>username || 'User'\<close>: a blank input passes the test as the
  empty name and is stored as \<open>User\<close>, also when a profile named \<open>User\<close> exists. Two
  signups, the first as \<open>User\<close> and the second with a blank name, leave two profiles
  named \<open>User\<close> in the store.
\<close>

theorem signup_blank_name_duplicates_User:
  "map username
     (getUsers (signup (str ''  '') pw2 av2 (signup (str ''User'') pw1 av1 (initialState None None)))) =
     [str ''User'', str ''User''] \<and>
   \<not> distinct (map username
     (getUsers (signup (str ''  '') pw2 av2 (signup (str ''User'') pw1 av1 (initialState None None)))))"
proof -
  have t1: "trim (str ''User'') = str ''User''"
    by (simp add: trim_literal)
  have t2: "trim (str ''  '') = []"
    by (simp add: trim_def isWhiteSpace_def str_def)
  have ne: "str ''User'' \<noteq> []"
    by (simp add: str_def)
  have "\<not> list_ex (\<lambda>u. username u = trim (str ''User'')) (getUsers (initialState None None))"
    by (simp add: initialState_def getUsers_def)
  from signup_new [OF this, of pw1 av1]
  have g1: "map username (getUsers (signup (str ''User'') pw1 av1 (initialState None None))) =
      [str ''User'']"
    using ne by (simp add: t1 getUsers_def initialState_def)
  then have "\<not> list_ex (\<lambda>u. username u = trim (str ''  ''))
      (getUsers (signup (str ''User'') pw1 av1 (initialState None None)))"
    using ne by (simp add: list_ex_username t2)
  from signup_new [OF this, of pw2 av2]
  have "map username
     (getUsers (signup (str ''  '') pw2 av2 (signup (str ''User'') pw1 av1 (initialState None None)))) =
     [str ''User'', str ''User'']"
    using g1 by (simp add: t2 getUsers_def)
  then show ?thesis
    by simp
qed

section \<open>C8: the start of the process\<close>

text \<open>
  C8. No stored user name is empty (signup never stores one). If the marker is present
  and \<open>find\<close> returns a profile for it, then after \<open>main\<close> that profile is the current
  user, the conversation and the persisted id are those of the head of its session
  list, and the chat handle is seeded with the roles and parts of that conversation
  (with no saved session there is no head: the conversation stays empty, with no
  persisted id and an unseeded handle). If the marker is absent or names no stored
  profile, \<open>main\<close> leaves the initial state: no user, no message, no persisted id, an
  unseeded handle.
\<close>

theorem main_restores_session:
  assumes ne: "list_all (\<lambda>u. username u \<noteq> []) (getUsers (initialState users marker))"
  shows "(marker = Some name \<and>
          find (\<lambda>u. username u = name) (getUsers (initialState users marker)) = Some p \<longrightarrow>
            currentUser (result (main users marker)) = Some p \<and>
            (case chatHistory p of
               [] \<Rightarrow> currentMessages (result (main users marker)) = [] \<and>
                     currentLoadedSessionId (result (main users marker)) = None \<and>
                     chat (result (main users marker)) = []
             | latestSession # _ \<Rightarrow>
                 currentMessages (result (main users marker)) = history latestSession \<and>
                 currentLoadedSessionId (result (main users marker)) =
                   Some (session_id latestSession) \<and>
                 chat (result (main users marker)) =
                   map (\<lambda>m. (role m, parts m)) (history latestSession))) \<and>
         (marker = None \<or>
          (marker = Some name \<and>
           find (\<lambda>u. username u = name) (getUsers (initialState users marker)) = None) \<longrightarrow>
            main users marker = Done (initialState users marker) \<and>
            currentUser (initialState users marker) = None \<and>
            currentMessages (initialState users marker) = [] \<and>
            currentLoadedSessionId (initialState users marker) = None \<and>
            chat (initialState users marker) = [])"
proof -
  let ?s0 = "initialState users marker"
  have i: "initializeChat [] ?s0 = ?s0"
    by (simp add: initializeChat_def initialState_def)
  have g: "getUsers ?s0 = (case users of None \<Rightarrow> [] | Some us \<Rightarrow> us)"
    by (simp add: getUsers_def initialState_def)
  have m: "sessionUser ?s0 = marker"
    by (simp add: initialState_def)
  have a: "currentUser (result (main users marker)) = Some p \<and>
            (case chatHistory p of
               [] \<Rightarrow> currentMessages (result (main users marker)) = [] \<and>
                     currentLoadedSessionId (result (main users marker)) = None \<and>
                     chat (result (main users marker)) = []
             | latestSession # _ \<Rightarrow>
                 currentMessages (result (main users marker)) = history latestSession \<and>
                 currentLoadedSessionId (result (main users marker)) =
                   Some (session_id latestSession) \<and>
                 chat (result (main users marker)) =
                   map (\<lambda>m. (role m, parts m)) (history latestSession))"
    if mk: "marker = Some name" and f: "find (\<lambda>u. username u = name) (getUsers ?s0) = Some p"
  proof -
    from f have "p \<in> set (getUsers ?s0)" and "username p = name"
      by (auto simp add: find_Some_iff)
    with ne have n: "name \<noteq> []"
      by (auto simp add: list_all_iff)
    have m': "sessionUser ?s0 = Some name"
      using m mk by simp
    show ?thesis
    proof (cases "chatHistory p")
      case Nil
      have "main users marker = Done (updateUIForLogin p ?s0)"
        using checkCurrentUserSession_empty_list [OF m' n f Nil]
        by (simp add: main_def i)
      then show ?thesis
        using Nil by (simp add: updateUIForLogin_def initialState_def)
    next
      case (Cons latest rest)
      let ?s2 = "initializeChat (history latest)
          ((updateUIForLogin p ?s0)\<lparr>currentMessages := history latest,
             currentLoadedSessionId := Some (session_id latest),
             historyShared := True, metaCycle := False\<rparr>)"
      have "main users marker = renderMessagesTo (history latest) ?s2"
        using checkCurrentUserSession_latest [OF m' n f Cons]
        by (simp add: main_def i)
      moreover obtain ps where "result (renderMessagesTo (history latest) ?s2) =
          (emptyMessagesEl ?s2)\<lparr>messagesEl := ps\<rparr>"
        using renderMessagesTo_result by blast
      ultimately show ?thesis
        using Cons by (simp add: initializeChat_def updateUIForLogin_def emptyMessagesEl_fields)
    qed
  qed
  have b: "main users marker = Done ?s0"
    if "marker = None \<or> (marker = Some name \<and> find (\<lambda>u. username u = name) (getUsers ?s0) = None)"
    using that checkCurrentUserSession_absent [of ?s0 name]
    by (auto simp add: main_def i m)
  have c: "currentUser ?s0 = None \<and> currentMessages ?s0 = [] \<and>
      currentLoadedSessionId ?s0 = None \<and> chat ?s0 = []"
    by (simp add: initialState_def)
  from a b c show ?thesis
    by blast
qed

text \<open>
  The theorem for a store that holds alice with two sessions, and the markers \<open>alice\<close>,
  none, and \<open>bob\<close>.
\<close>

theorem main_restores_session_witness:
  "list_all (\<lambda>u. username u \<noteq> []) (getUsers (initialState (Some [aliceTwo]) (Some (str ''alice'')))) \<and>
   find (\<lambda>u. username u = str ''alice'')
     (getUsers (initialState (Some [aliceTwo]) (Some (str ''alice'')))) = Some aliceTwo \<and>
   currentUser (result (main (Some [aliceTwo]) (Some (str ''alice'')))) = Some aliceTwo \<and>
   currentMessages (result (main (Some [aliceTwo]) (Some (str ''alice'')))) = byeConversation \<and>
   currentLoadedSessionId (result (main (Some [aliceTwo]) (Some (str ''alice'')))) =
     Some 1735689602000 \<and>
   chat (result (main (Some [aliceTwo]) (Some (str ''alice'')))) =
     [(USER, [str ''bye'']), (MODEL, [str ''see you''])] \<and>
   main (Some [aliceTwo]) None = Done (initialState (Some [aliceTwo]) None) \<and>
   find (\<lambda>u. username u = str ''bob'')
     (getUsers (initialState (Some [aliceTwo]) (Some (str ''bob'')))) = None \<and>
   main (Some [aliceTwo]) (Some (str ''bob'')) =
     Done (initialState (Some [aliceTwo]) (Some (str ''bob'')))"
proof -
  have ne: "str ''alice'' \<noteq> []" and ab: "str ''alice'' \<noteq> str ''bob''"
    by (simp_all add: str_def)
  have 1: "list_all (\<lambda>u. username u \<noteq> []) (getUsers (initialState (Some [aliceTwo]) marker))"
    for marker
    using ne by (simp add: getUsers_def initialState_def aliceTwo_def alice_def)
  have 2: "find (\<lambda>u. username u = str ''alice'')
     (getUsers (initialState (Some [aliceTwo]) (Some (str ''alice'')))) = Some aliceTwo"
    by (simp add: getUsers_def initialState_def aliceTwo_def alice_def)
  have 3: "find (\<lambda>u. username u = str ''bob'')
     (getUsers (initialState (Some [aliceTwo]) (Some (str ''bob'')))) = None"
    using ab by (simp add: getUsers_def initialState_def aliceTwo_def alice_def)
  have c: "chatHistory aliceTwo = [byeSession, hiSession]"
    by (simp add: aliceTwo_def)
  from main_restores_session [OF 1, of "Some (str ''alice'')" "str ''alice''" aliceTwo]
    main_restores_session [OF 1, of None "str ''alice''" aliceTwo]
    main_restores_session [OF 1, of "Some (str ''bob'')" "str ''bob''" aliceTwo]
    1 [of "Some (str ''alice'')"] 2 3
  show ?thesis
    by (simp add: c byeSession_def byeConversation_def)
qed

section \<open>C9: login\<close>



section \<open>C10: deleting a session\<close>

text \<open>
  C10. For an authenticated user whose profile is at index \<open>k\<close> of the stored list,
  \<open>deleteChatSession(id)\<close> replaces the session list of that profile by its sessions
  with another id, in their order, and changes nothing else: the other profiles, the
  name, avatar and password of the profile, and the rest of the state are as before.
\<close>

theorem deleteChatSession_frame:
  assumes cu: "currentUser s = Some cu"
    and k: "findIndex (\<lambda>u. username u = username cu) (getUsers s) = Some k"
  shows "getUsers (result (deleteChatSession pf i s)) =
           (getUsers s)[k := (getUsers s ! k)
              \<lparr>chatHistory := filter (\<lambda>x. session_id x \<noteq> i) (chatHistory (getUsers s ! k))\<rparr>] \<and>
         getChatSessions (result (deleteChatSession pf i s)) =
           filter (\<lambda>x. session_id x \<noteq> i) (getChatSessions s) \<and>
         subseq (getChatSessions (result (deleteChatSession pf i s))) (getChatSessions s) \<and>
         length (getUsers (result (deleteChatSession pf i s))) = length (getUsers s) \<and>
         (\<forall>j < length (getUsers s). j \<noteq> k \<longrightarrow>
            getUsers (result (deleteChatSession pf i s)) ! j = getUsers s ! j) \<and>
         username (getUsers (result (deleteChatSession pf i s)) ! k) = username (getUsers s ! k) \<and>
         avatar (getUsers (result (deleteChatSession pf i s)) ! k) = avatar (getUsers s ! k) \<and>
         password (getUsers (result (deleteChatSession pf i s)) ! k) = password (getUsers s ! k) \<and>
         result (deleteChatSession pf i s) =
           s\<lparr>storedUsers := storedUsers (result (deleteChatSession pf i s))\<rparr>"
proof -
  let ?h = "filter (\<lambda>x. session_id x \<noteq> i) (chatHistory (getUsers s ! k))"
  let ?us = "(getUsers s)[k := (getUsers s ! k)\<lparr>chatHistory := ?h\<rparr>]"
  have kl: "k < length (getUsers s)"
    using k by (simp add: findIndex_Some_iff)
  have r: "result (deleteChatSession pf i s) = setItem_users ?us s"
    using cu k by (simp add: deleteChatSession_def saveUsers_def Let_def split: sum.splits)
  have g: "getUsers (result (deleteChatSession pf i s)) = ?us"
    by (simp add: r getUsers_setItem)
  have cu': "currentUser (setItem_users ?us s) = Some cu"
    by (simp add: setItem_users_def cu)
  have "getChatSessions (setItem_users ?us s) = filter (\<lambda>x. session_id x \<noteq> i) (getChatSessions s)"
    unfolding getChatSessions_sessionsOf [OF cu'] getChatSessions_sessionsOf [OF cu]
    by (simp add: sessionsOf_setItem_update [OF k] sessionsOf_findIndex [OF k])
  then have h: "getChatSessions (result (deleteChatSession pf i s)) =
           filter (\<lambda>x. session_id x \<noteq> i) (getChatSessions s)"
    by (simp add: r)
  have e: "result (deleteChatSession pf i s) =
           s\<lparr>storedUsers := storedUsers (result (deleteChatSession pf i s))\<rparr>"
    by (simp add: r setItem_users_def)
  show ?thesis
    using kl e by (simp add: g h)
qed

text \<open>The theorem for alice, who deletes the older of her two sessions.\<close>

theorem deleteChatSession_frame_witness:
  "currentUser aliceBrowsing = Some alice \<and>
   findIndex (\<lambda>u. username u = username alice) (getUsers aliceBrowsing) = Some 0 \<and>
   getChatSessions aliceBrowsing = [byeSession, hiSession] \<and>
   getUsers (result (deleteChatSession examplePlatform 1735689601000 aliceBrowsing)) =
     [alice\<lparr>chatHistory := [byeSession]\<rparr>] \<and>
   getChatSessions (result (deleteChatSession examplePlatform 1735689601000 aliceBrowsing)) =
     [byeSession]"
proof -
  have 1: "currentUser aliceBrowsing = Some alice"
    by (simp add: aliceBrowsing_def)
  have 2: "findIndex (\<lambda>u. username u = username alice) (getUsers aliceBrowsing) = Some 0"
    by (simp add: aliceBrowsing_def getUsers_def)
  have g: "getChatSessions aliceBrowsing = [byeSession, hiSession]"
    by (simp add: getChatSessions_def aliceBrowsing_def getUsers_def)
  have u: "getUsers aliceBrowsing = [alice\<lparr>chatHistory := [byeSession, hiSession]\<rparr>]"
    by (simp add: aliceBrowsing_def getUsers_def)
  have i: "session_id byeSession \<noteq> 1735689601000" "session_id hiSession = 1735689601000"
    by (simp_all add: byeSession_def hiSession_def)
  from deleteChatSession_frame [OF 1 2, of examplePlatform 1735689601000] 1 2 g
  show ?thesis
    by (simp add: u i)
qed

end
